theory Spec2Isabelle
  imports Main "HOL-Library.AList"
begin

section \<open>Outcomes of a call\<close>

text \<open>
  A Python call returns a value, raises an exception or never returns. The exceptions that
  the template library can raise are listed in \<open>halt\<close>, together with two outcomes that are
  not exceptions: \<open>Diverges\<close> (the call loops forever) and \<open>Unmodelled\<close> (the call leaves the
  fragment of Python and of its \<open>re\<close> module that this theory describes).
\<close>

datatype halt =
    AttributeError
  | TypeError
  | KeyError
  | ValueError
  | IndexError
  | ReError
  | Diverges
  | Unmodelled

type_synonym 'a result = "halt + 'a"

section \<open>Regular expressions of the \<open>re\<close> module\<close>

text \<open>
  The templates hand their patterns to \<open>re.compile\<close> and call \<open>match(s, pos)\<close> on the compiled
  object. The fragment described here has literal characters, \<open>.\<close>, character sets with
  ranges and negation, concatenation, alternation, the greedy quantifiers \<open>?\<close>, \<open>*\<close> and \<open>+\<close>,
  and capturing groups. \<open>a?\<close> is compiled to \<open>Alt a Epsilon\<close> and \<open>a+\<close> to \<open>Cat a (Star a)\<close>.
\<close>

datatype regex =
    Lit char
  | Dot
  | CharSet bool "(char \<times> char) list"
  | Epsilon
  | Cat regex regex
  | Alt regex regex
  | Star regex
  | Group nat regex

type_synonym captures = "(nat \<times> string) list"

definition in_ranges :: "char \<Rightarrow> (char \<times> char) list \<Rightarrow> bool" where
  "in_ranges x rs =
     list_ex (\<lambda>(lo, hi). (of_char lo :: nat) \<le> of_char x \<and> (of_char x :: nat) \<le> of_char hi) rs"

text \<open>
  \<open>rx r s\<close> lists every way in which \<open>r\<close> matches a prefix of \<open>s\<close>, in the order in which the
  backtracking matcher of \<open>re\<close> tries them: the number of characters consumed and the
  groups captured on the way (the most recent capture of a group first). The guard in the
  \<open>Star\<close> equation drops an iteration that consumes nothing; \<open>re_compile\<close> below admits no
  repetition whose body can match the empty string, so that the guard only ever drops
  iterations that do not exist (\<open>re_compile_stars_ok\<close>, \<open>star_guard_redundant\<close>).
\<close>

fun rx :: "regex \<Rightarrow> string \<Rightarrow> (nat \<times> captures) list" where
  "rx (Lit c) s = (case s of [] \<Rightarrow> [] | x # _ \<Rightarrow> if x = c then [(1, [])] else [])"
| "rx Dot s = (case s of [] \<Rightarrow> [] | x # _ \<Rightarrow> if x \<noteq> CHR 0x0A then [(1, [])] else [])"
| "rx (CharSet neg rs) s =
     (case s of [] \<Rightarrow> [] | x # _ \<Rightarrow> if in_ranges x rs \<noteq> neg then [(1, [])] else [])"
| "rx Epsilon s = [(0, [])]"
| "rx (Cat a b) s =
     concat (map (\<lambda>(n, c). map (\<lambda>(m, c'). (n + m, c' @ c)) (rx b (drop n s))) (rx a s))"
| "rx (Alt a b) s = rx a s @ rx b s"
| "rx (Star a) s =
     concat (map (\<lambda>(n, c).
        if 0 < n \<and> n \<le> length s
        then map (\<lambda>(m, c'). (n + m, c' @ c)) (rx (Star a) (drop n s))
        else []) (rx a s)) @ [(0, [])]"
| "rx (Group i a) s = map (\<lambda>(n, c). (n, (i, take n s) # c)) (rx a s)"

text \<open>
  \<open>pattern.match(s, pos)\<close>: the start is \<open>pos\<close> clamped to the string, the match is anchored
  there, and the first way of matching wins. The result is \<open>m.group(0)\<close> with the captures.
\<close>

definition re_match :: "regex \<Rightarrow> string \<Rightarrow> int \<Rightarrow> (string \<times> captures) option" where
  "re_match r s pos =
     (let rest = drop (nat (max 0 (min pos (int (length s))))) s
      in case rx r rest of [] \<Rightarrow> None | (n, c) # _ \<Rightarrow> Some (take n rest, c))"

text \<open>\<open>pattern.groups\<close>: groups are numbered from 1 in the order of their opening parentheses.\<close>

fun groups :: "regex \<Rightarrow> nat" where
  "groups (Cat a b) = max (groups a) (groups b)"
| "groups (Alt a b) = max (groups a) (groups b)"
| "groups (Star a) = groups a"
| "groups (Group i a) = max i (groups a)"
| "groups _ = 0"

fun nullable :: "regex \<Rightarrow> bool" where
  "nullable Epsilon = True"
| "nullable (Cat a b) = (nullable a \<and> nullable b)"
| "nullable (Alt a b) = (nullable a \<or> nullable b)"
| "nullable (Star a) = True"
| "nullable (Group i a) = nullable a"
| "nullable _ = False"

subsection \<open>\<open>re.compile\<close>\<close>

text \<open>
  The pattern is read from left to right with a stack of open groups. A frame holds the
  number of its group (0 for the whole pattern), the finished branches of its alternation
  and the items of the current branch, both latest first, and whether the latest item
  already carries a quantifier. What \<open>re\<close> rejects is \<open>ReError\<close>; what it accepts but this
  theory does not describe (anchors, \<open>{m,n}\<close>, lazy and possessive quantifiers, \<open>(?...)\<close>,
  letter and digit escapes other than \<open>\n\<close>, \<open>\t\<close>, \<open>\r\<close>, and a repetition of a body that can
  match the empty string) is \<open>Unmodelled\<close>.
\<close>

datatype frame = Frame nat "regex list" "regex list" bool

datatype cpend = CNone | CLo char | CLoDash char

datatype pmode =
    Normal
  | Escape
  | ClassOpen
  | InClass bool "(char \<times> char) list" cpend
  | ClassEscape bool "(char \<times> char) list" cpend

datatype pstate = PState "frame list" nat pmode

fun seq :: "regex list \<Rightarrow> regex" where
  "seq [] = Epsilon"
| "seq [r] = r"
| "seq (r # rs) = Cat r (seq rs)"

fun alt :: "regex list \<Rightarrow> regex" where
  "alt [] = Epsilon"
| "alt [r] = r"
| "alt (r # rs) = Alt r (alt rs)"

fun close_frame :: "frame \<Rightarrow> regex" where
  "close_frame (Frame g alts items q) = alt (rev (seq (rev items) # alts))"

fun push_item :: "regex \<Rightarrow> frame list \<Rightarrow> frame list" where
  "push_item r [] = []"
| "push_item r (Frame g alts items q # fs) = Frame g alts (r # items) False # fs"

definition is_alnum :: "char \<Rightarrow> bool" where
  "is_alnum c = in_ranges c [(CHR ''a'', CHR ''z''), (CHR ''A'', CHR ''Z''), (CHR ''0'', CHR ''9'')]"

definition escape_char :: "char \<Rightarrow> char result" where
  "escape_char c =
     (if c = CHR ''n'' then Inr (CHR 0x0A)
      else if c = CHR ''t'' then Inr (CHR 0x09)
      else if c = CHR ''r'' then Inr (CHR 0x0D)
      else if is_alnum c then Inl Unmodelled
      else Inr c)"

fun quantify :: "char \<Rightarrow> frame list \<Rightarrow> frame list result" where
  "quantify q [] = Inl ReError"
| "quantify q (Frame g alts [] jq # fs) =
     (if q = CHR ''?'' \<and> 0 < g \<and> alts = [] then Inl Unmodelled else Inl ReError)"
| "quantify q (Frame g alts (r # items) jq # fs) =
     (if jq then (if q = CHR ''*'' then Inl ReError else Inl Unmodelled)
      else if q = CHR ''?'' then Inr (Frame g alts (Alt r Epsilon # items) True # fs)
      else if nullable r then Inl Unmodelled
      else if q = CHR ''*'' then Inr (Frame g alts (Star r # items) True # fs)
      else Inr (Frame g alts (Cat r (Star r) # items) True # fs))"

fun class_range :: "frame list \<Rightarrow> nat \<Rightarrow> bool \<Rightarrow> (char \<times> char) list \<Rightarrow> char \<Rightarrow> char
    \<Rightarrow> pstate result" where
  "class_range fs n neg items lo hi =
     (if (of_char hi :: nat) < of_char lo then Inl ReError
      else Inr (PState fs n (InClass neg ((lo, hi) # items) CNone)))"

fun class_this :: "frame list \<Rightarrow> nat \<Rightarrow> bool \<Rightarrow> (char \<times> char) list \<Rightarrow> char \<Rightarrow> pstate result" where
  "class_this fs n neg items c =
     (if c = CHR '']'' \<and> items \<noteq> [] then Inr (PState (push_item (CharSet neg (rev items)) fs) n Normal)
      else if c = CHR 0x5C then Inr (PState fs n (ClassEscape neg items CNone))
      else Inr (PState fs n (InClass neg items (CLo c))))"

fun step :: "pstate \<Rightarrow> char \<Rightarrow> pstate result" where
  "step (PState fs n Normal) c =
     (if c = CHR 0x5C then Inr (PState fs n Escape)
      else if c = CHR ''['' then Inr (PState fs n ClassOpen)
      else if c = CHR ''('' then Inr (PState (Frame (n + 1) [] [] False # fs) (n + 1) Normal)
      else if c = CHR '')'' then
        (case fs of
           f # p # rest \<Rightarrow>
             (case f of Frame g alts items q \<Rightarrow>
                Inr (PState (push_item (Group g (close_frame f)) (p # rest)) n Normal))
         | _ \<Rightarrow> Inl ReError)
      else if c = CHR ''|'' then
        (case fs of
           Frame g alts items q # rest \<Rightarrow>
             Inr (PState (Frame g (seq (rev items) # alts) [] False # rest) n Normal)
         | [] \<Rightarrow> Inl ReError)
      else if c = CHR ''*'' \<or> c = CHR ''+'' \<or> c = CHR ''?'' then
        (case quantify c fs of Inl e \<Rightarrow> Inl e | Inr fs' \<Rightarrow> Inr (PState fs' n Normal))
      else if c = CHR ''.'' then Inr (PState (push_item Dot fs) n Normal)
      else if c = CHR ''^'' \<or> c = CHR ''$'' \<or> c = CHR ''{'' then Inl Unmodelled
      else Inr (PState (push_item (Lit c) fs) n Normal))"
| "step (PState fs n Escape) c =
     (case escape_char c of
        Inl e \<Rightarrow> Inl e
      | Inr x \<Rightarrow> Inr (PState (push_item (Lit x) fs) n Normal))"
| "step (PState fs n ClassOpen) c =
     (if c = CHR ''^'' then Inr (PState fs n (InClass True [] CNone))
      else class_this fs n False [] c)"
| "step (PState fs n (InClass neg items CNone)) c = class_this fs n neg items c"
| "step (PState fs n (InClass neg items (CLo lo))) c =
     (if c = CHR ''-'' then Inr (PState fs n (InClass neg items (CLoDash lo)))
      else class_this fs n neg ((lo, lo) # items) c)"
| "step (PState fs n (InClass neg items (CLoDash lo))) c =
     (if c = CHR '']'' then
        Inr (PState (push_item (CharSet neg (rev ((CHR ''-'', CHR ''-'') # (lo, lo) # items))) fs)
               n Normal)
      else if c = CHR 0x5C then Inr (PState fs n (ClassEscape neg items (CLoDash lo)))
      else class_range fs n neg items lo c)"
| "step (PState fs n (ClassEscape neg items pend)) c =
     (case escape_char c of
        Inl e \<Rightarrow> Inl e
      | Inr x \<Rightarrow>
          (case pend of
             CLoDash lo \<Rightarrow> class_range fs n neg items lo x
           | _ \<Rightarrow> Inr (PState fs n (InClass neg items (CLo x)))))"

fun finish :: "pstate \<Rightarrow> regex result" where
  "finish (PState [f] n Normal) = Inr (close_frame f)"
| "finish _ = Inl ReError"

fun parse :: "pstate \<Rightarrow> string \<Rightarrow> regex result" where
  "parse st [] = finish st"
| "parse st (c # cs) = (case step st c of Inl e \<Rightarrow> Inl e | Inr st' \<Rightarrow> parse st' cs)"

definition re_compile :: "string \<Rightarrow> regex result" where
  "re_compile p = parse (PState [Frame 0 [] [] False] 0 Normal) p"


section \<open>Values and templates\<close>

text \<open>
  The data side of the library is untyped. The values that the templates produce and
  consume are \<open>None\<close>, strings, integers, booleans, tuples, lists and dictionaries with
  string keys (kept in insertion order).
\<close>

datatype pyval =
    VNone
  | VStr string
  | VInt int
  | VBool bool
  | VTuple "pyval list"
  | VList "pyval list"
  | VDict "(string \<times> pyval) list"

text \<open>
  A template object is given by its class and the fields that \<open>__init__\<close> stores. A
  constructor argument annotated \<open>Union[str, Template]\<close> is an \<open>arg\<close>: \<open>Repeat\<close> stores its
  \<open>item_template\<close> and \<open>Affix\<close> its \<open>content\<close> as they are passed, every other argument
  goes through \<open>str_to_fixed\<close> first. A \<open>NumberedList\<close> has the fields of a \<open>Repeat\<close> and
  its \<open>start_idx\<close>. \<open>Integer\<close> has the fields of a \<open>Pattern\<close>, always with the same contents
  (\<open>int_pattern\<close> below). The dictionaries of \<open>Record\<close> and \<open>Option\<close> are
  association lists in insertion order.
\<close>

datatype template =
    Fixed string regex
  | Pattern regex nat
  | Integer
  | Append "template list"
  | Repeat arg template bool
  | NumberedList arg template bool int
  | Affix template arg "template option"
  | Record "(string \<times> template) list"
  | Option "(pyval \<times> template) list"
and arg =
    Str string
  | Tm template
  | Other

subsection \<open>Built-in operations on values\<close>

text \<open>
  \<open>str(i)\<close> for an integer: \<open>str_int i\<close> is its decimal text and \<open>int_to_str i\<close> the outcome of
  the call. \<open>str\<close> and \<open>int\<close> put a limit on the number of decimal digits, the sign not
  counted (\<open>sys.get_int_max_str_digits()\<close>, 4300 unless the interpreter is started with
  another value): beyond it both raise a \<open>ValueError\<close>.
\<close>

definition int_max_str_digits :: nat where
  "int_max_str_digits = 4300"

definition digit_char :: "nat \<Rightarrow> char" where
  "digit_char d = char_of (48 + d)"

fun digits :: "nat \<Rightarrow> string" where
  "digits n = (if n < 10 then [digit_char n] else digits (n div 10) @ [digit_char (n mod 10)])"

declare digits.simps [simp del]

definition str_int :: "int \<Rightarrow> string" where
  "str_int i = (if i < 0 then CHR ''-'' # digits (nat (- i)) else digits (nat i))"

definition int_to_str :: "int \<Rightarrow> string result" where
  "int_to_str i =
     (if int_max_str_digits < length (digits (nat \<bar>i\<bar>)) then Inl ValueError else Inr (str_int i))"

text \<open>
  \<open>str(v)\<close>. The \<open>repr\<close> of the elements of a container is not described.
\<close>

fun py_str :: "pyval \<Rightarrow> string result" where
  "py_str VNone = Inr ''None''"
| "py_str (VStr s) = Inr s"
| "py_str (VInt i) = int_to_str i"
| "py_str (VBool b) = Inr (if b then ''True'' else ''False'')"
| "py_str _ = Inl Unmodelled"

text \<open>
  \<open>int(v, base=10)\<close> on \<open>None\<close> and on a string made of an optional sign and decimal digits;
  the surrounding whitespace and the underscores that \<open>int\<close> also accepts are left out.
  More digits than the limit, leading zeros included, are a \<open>ValueError\<close>.
\<close>

definition is_digit :: "char \<Rightarrow> bool" where
  "is_digit c = in_ranges c [(CHR ''0'', CHR ''9'')]"

definition digit_val :: "char \<Rightarrow> nat" where
  "digit_val c = of_char c - 48"

definition nat_of_digits :: "string \<Rightarrow> nat" where
  "nat_of_digits ds = foldl (\<lambda>acc c. 10 * acc + digit_val c) 0 ds"

definition int_digits :: "string \<Rightarrow> int result" where
  "int_digits ds =
     (if ds \<noteq> [] \<and> list_all is_digit ds \<and> length ds \<le> int_max_str_digits
      then Inr (int (nat_of_digits ds))
      else Inl ValueError)"

fun py_int :: "pyval \<Rightarrow> int result" where
  "py_int (VStr s) =
     (case s of
        [] \<Rightarrow> Inl ValueError
      | c # cs \<Rightarrow>
          if c = CHR ''-'' then (case int_digits cs of Inl e \<Rightarrow> Inl e | Inr n \<Rightarrow> Inr (- n))
          else if c = CHR ''+'' then int_digits cs
          else int_digits s)"
| "py_int _ = Inl TypeError"

text \<open>\<open>iter(v)\<close>, \<open>len(v)\<close>, \<open>name in v\<close> and \<open>v.get(name)\<close>.\<close>

fun py_iter :: "pyval \<Rightarrow> pyval list result" where
  "py_iter (VTuple xs) = Inr xs"
| "py_iter (VList xs) = Inr xs"
| "py_iter (VStr s) = Inr (map (\<lambda>c. VStr [c]) s)"
| "py_iter (VDict d) = Inr (map (\<lambda>(k, v). VStr k) d)"
| "py_iter _ = Inl TypeError"

fun py_len :: "pyval \<Rightarrow> nat result" where
  "py_len (VTuple xs) = Inr (length xs)"
| "py_len (VList xs) = Inr (length xs)"
| "py_len (VStr s) = Inr (length s)"
| "py_len (VDict d) = Inr (length d)"
| "py_len _ = Inl TypeError"

definition substring :: "string \<Rightarrow> string \<Rightarrow> bool" where
  "substring xs ys = list_ex (\<lambda>i. take (length xs) (drop i ys) = xs) [0 ..< Suc (length ys)]"

fun py_contains :: "pyval \<Rightarrow> string \<Rightarrow> bool result" where
  "py_contains (VDict d) name = Inr (name \<in> set (map fst d))"
| "py_contains (VTuple xs) name = Inr (VStr name \<in> set xs)"
| "py_contains (VList xs) name = Inr (VStr name \<in> set xs)"
| "py_contains (VStr s) name = Inr (substring name s)"
| "py_contains _ name = Inl TypeError"

fun py_get :: "pyval \<Rightarrow> string \<Rightarrow> pyval result" where
  "py_get (VDict d) name = Inr (case map_of d name of None \<Rightarrow> VNone | Some v \<Rightarrow> v)"
| "py_get _ name = Inl AttributeError"

text \<open>\<open>sep.join(parts)\<close> and \<open>a + b\<close> on strings; anything that is not a string is a \<open>TypeError\<close>.\<close>

fun join_strs :: "string \<Rightarrow> string list \<Rightarrow> string" where
  "join_strs sep [] = []"
| "join_strs sep [x] = x"
| "join_strs sep (x # xs) = x @ sep @ join_strs sep xs"

fun the_strs :: "pyval list \<Rightarrow> string list result" where
  "the_strs [] = Inr []"
| "the_strs (VStr s # vs) = (case the_strs vs of Inl e \<Rightarrow> Inl e | Inr ss \<Rightarrow> Inr (s # ss))"
| "the_strs (_ # vs) = Inl TypeError"

definition py_join :: "string \<Rightarrow> pyval list \<Rightarrow> pyval result" where
  "py_join sep parts =
     (case the_strs parts of Inl e \<Rightarrow> Inl e | Inr ss \<Rightarrow> Inr (VStr (join_strs sep ss)))"

fun py_add :: "pyval \<Rightarrow> pyval \<Rightarrow> pyval result" where
  "py_add (VStr a) (VStr b) = Inr (VStr (a @ b))"
| "py_add _ _ = Inl TypeError"

text \<open>
  Keys of the dictionary of an \<open>Option\<close>: hashable values, compared with \<open>==\<close>, under which
  \<open>True\<close> is \<open>1\<close> and \<open>False\<close> is \<open>0\<close>.
\<close>

fun hashable :: "pyval \<Rightarrow> bool" where
  "hashable (VTuple xs) = list_all hashable xs"
| "hashable (VList xs) = False"
| "hashable (VDict d) = False"
| "hashable _ = True"

fun key_eq :: "pyval \<Rightarrow> pyval \<Rightarrow> bool" where
  "key_eq (VInt i) (VBool b) = (i = (if b then 1 else 0))"
| "key_eq (VBool b) (VInt i) = (i = (if b then 1 else 0))"
| "key_eq (VTuple xs) (VTuple ys) = list_all2 key_eq xs ys"
| "key_eq a b = (a = b)"

fun key_lookup :: "(pyval \<times> 'a) list \<Rightarrow> pyval \<Rightarrow> 'a option" where
  "key_lookup [] k = None"
| "key_lookup ((k', x) # d) k = (if key_eq k' k then Some x else key_lookup d k)"

fun key_update :: "pyval \<Rightarrow> 'a \<Rightarrow> (pyval \<times> 'a) list \<Rightarrow> (pyval \<times> 'a) list" where
  "key_update k x [] = [(k, x)]"
| "key_update k x ((k', x') # d) =
     (if key_eq k' k then (k', x) # d else (k', x') # key_update k x d)"


section \<open>Constructors\<close>

text \<open>
  \<open>Fixed(default, accepted_pattern=None)\<close> compiles the default text itself as the accepted
  pattern when none is given.
\<close>

definition Fixed_init :: "string \<Rightarrow> string option \<Rightarrow> template result" where
  "Fixed_init default_text accepted_pattern =
     (case re_compile (case accepted_pattern of None \<Rightarrow> default_text | Some p \<Rightarrow> p) of
        Inl e \<Rightarrow> Inl e
      | Inr r \<Rightarrow> Inr (Fixed default_text r))"

fun str_to_fixed :: "arg \<Rightarrow> template result" where
  "str_to_fixed (Tm t) = Inr t"
| "str_to_fixed (Str s) = Fixed_init s None"
| "str_to_fixed Other = Inl ValueError"

definition NOTHING :: template where
  "NOTHING = Fixed [] Epsilon"

definition Pattern_init :: "string \<Rightarrow> template result" where
  "Pattern_init pattern =
     (case re_compile pattern of
        Inl e \<Rightarrow> Inl e
      | Inr r \<Rightarrow> Inr (Pattern r (if groups r = 0 then 0 else 1)))"

text \<open>The compiled form of \<open>-?[0-9]+\<close>, the pattern of every \<open>Integer\<close>.\<close>

definition int_pattern :: regex where
  "int_pattern =
     Cat (Alt (Lit CHR ''-'') Epsilon)
       (Cat (CharSet False [(CHR ''0'', CHR ''9'')]) (Star (CharSet False [(CHR ''0'', CHR ''9'')])))"

fun map_result :: "('a \<Rightarrow> 'b result) \<Rightarrow> 'a list \<Rightarrow> 'b list result" where
  "map_result f [] = Inr []"
| "map_result f (x # xs) =
     (case f x of
        Inl e \<Rightarrow> Inl e
      | Inr y \<Rightarrow> (case map_result f xs of Inl e \<Rightarrow> Inl e | Inr ys \<Rightarrow> Inr (y # ys)))"

definition Append_init :: "arg list \<Rightarrow> template result" where
  "Append_init item_templates =
     (case map_result str_to_fixed item_templates of Inl e \<Rightarrow> Inl e | Inr ts \<Rightarrow> Inr (Append ts))"

definition Repeat_init :: "arg \<Rightarrow> arg \<Rightarrow> bool \<Rightarrow> template result" where
  "Repeat_init item_template delimiter trailing_delimiter =
     (case str_to_fixed delimiter of
        Inl e \<Rightarrow> Inl e
      | Inr d \<Rightarrow> Inr (Repeat item_template d trailing_delimiter))"

definition NumberedList_init :: "arg \<Rightarrow> arg \<Rightarrow> arg \<Rightarrow> bool \<Rightarrow> int \<Rightarrow> template result" where
  "NumberedList_init label_template item_template delimiter trailing_delimiter start_idx =
     (case Append_init [label_template, item_template] of
        Inl e \<Rightarrow> Inl e
      | Inr a \<Rightarrow>
          (case str_to_fixed delimiter of
             Inl e \<Rightarrow> Inl e
           | Inr d \<Rightarrow> Inr (NumberedList (Tm a) d trailing_delimiter start_idx)))"

definition Affix_init :: "arg \<Rightarrow> arg \<Rightarrow> arg option \<Rightarrow> template result" where
  "Affix_init prefix content suffix =
     (case str_to_fixed prefix of
        Inl e \<Rightarrow> Inl e
      | Inr p \<Rightarrow>
          (case suffix of
             None \<Rightarrow> Inr (Affix p content None)
           | Some x \<Rightarrow>
               (case str_to_fixed x of Inl e \<Rightarrow> Inl e | Inr sf \<Rightarrow> Inr (Affix p content (Some sf)))))"

definition Suffix_init :: "arg \<Rightarrow> arg \<Rightarrow> template result" where
  "Suffix_init content suffix = Affix_init (Tm NOTHING) content (Some suffix)"

text \<open>
  The dictionary comprehensions of \<open>Record\<close> and \<open>Option\<close> insert the converted entries one
  by one into a new dictionary.
\<close>

fun record_fields :: "(string \<times> arg) list \<Rightarrow> (string \<times> template) list
    \<Rightarrow> (string \<times> template) list result" where
  "record_fields [] d = Inr d"
| "record_fields ((name, x) # fields) d =
     (case str_to_fixed x of
        Inl e \<Rightarrow> Inl e
      | Inr t \<Rightarrow> record_fields fields (AList.update name t d))"

definition Record_init :: "(string \<times> arg) list \<Rightarrow> template result" where
  "Record_init fields =
     (case record_fields fields [] of Inl e \<Rightarrow> Inl e | Inr d \<Rightarrow> Inr (Record d))"

fun option_values :: "(pyval \<times> arg) list \<Rightarrow> (pyval \<times> template) list
    \<Rightarrow> (pyval \<times> template) list result" where
  "option_values [] d = Inr d"
| "option_values ((v, x) # value_templates) d =
     (case str_to_fixed x of
        Inl e \<Rightarrow> Inl e
      | Inr t \<Rightarrow> option_values value_templates (key_update v t d))"

definition Option_init :: "(pyval \<times> arg) list \<Rightarrow> template result" where
  "Option_init value_templates =
     (case option_values value_templates [] of Inl e \<Rightarrow> Inl e | Inr d \<Rightarrow> Inr (Option d))"

section \<open>\<open>fill\<close>\<close>

text \<open>
  \<open>fill t args\<close> is the call \<open>t.fill(*args)\<close>. Only \<open>Fixed.fill\<close> takes any number of
  arguments; the others take exactly one, and a call with another number is a \<open>TypeError\<close>.
  A call of \<open>fill\<close> on a stored string is an \<open>AttributeError\<close>. A generator expression
  is the list of the outcomes of its elements; \<open>sequence\<close> runs them in order and stops at
  the first exception, as \<open>join\<close> does when it consumes the generator.
\<close>

fun sequence :: "'a result list \<Rightarrow> 'a list result" where
  "sequence [] = Inr []"
| "sequence (Inl e # rs) = Inl e"
| "sequence (Inr x # rs) = (case sequence rs of Inl e \<Rightarrow> Inl e | Inr xs \<Rightarrow> Inr (x # xs))"

text \<open>
  \<open>zip(map(str, range(start_idx, len(values) + start_idx)), values)\<close>: the pairs come one
  at a time, each with the outcome of \<open>str\<close> on its number.
\<close>

fun numbered :: "int \<Rightarrow> pyval list \<Rightarrow> pyval result list" where
  "numbered i [] = []"
| "numbered i (v # vs) =
     (case int_to_str i of Inl e \<Rightarrow> Inl e | Inr label \<Rightarrow> Inr (VTuple [VStr label, v]))
     # numbered (i + 1) vs"

text \<open>
  The body of \<open>Repeat.fill\<close> after \<open>values\<close> is known not to be \<open>None\<close>: \<open>d\<close> is the outcome of
  \<open>self.delimiter.fill()\<close> and \<open>parts\<close> the outcomes of \<open>self.item_template.fill(v)\<close>.
\<close>

definition repeat_join :: "pyval result \<Rightarrow> bool \<Rightarrow> pyval result list \<Rightarrow> pyval result" where
  "repeat_join d trailing_delimiter parts =
     (case d of
        Inl e \<Rightarrow> Inl e
      | Inr (VStr ds) \<Rightarrow>
          (case sequence parts of
             Inl e \<Rightarrow> Inl e
           | Inr ps \<Rightarrow>
               (case py_join ds ps of
                  Inl e \<Rightarrow> Inl e
                | Inr filled \<Rightarrow> if trailing_delimiter then py_add filled (VStr ds) else Inr filled))
      | Inr _ \<Rightarrow> Inl AttributeError)"

text \<open>One element of the generator of \<open>Record.fill\<close>: \<open>None\<close> when the field is filtered out.\<close>

definition field_part :: "pyval \<Rightarrow> string \<Rightarrow> (pyval \<Rightarrow> pyval result) \<Rightarrow> pyval option result" where
  "field_part rec f_name f_fill =
     (case py_contains rec f_name of
        Inl e \<Rightarrow> Inl e
      | Inr present \<Rightarrow>
          if present then
            (case py_get rec f_name of
               Inl e \<Rightarrow> Inl e
             | Inr x \<Rightarrow> (case f_fill x of Inl e \<Rightarrow> Inl e | Inr y \<Rightarrow> Inr (Some y)))
          else Inr None)"

lemma key_lookup_size:
  "key_lookup d k = Some t \<Longrightarrow> size t < size_list (size_prod (\<lambda>x. 0) size) d"
  by (induction d) (auto split: if_splits)

function (sequential) fill :: "template \<Rightarrow> pyval list \<Rightarrow> pyval result" where
  "fill (Fixed default_text accepted_pattern) args = Inr (VStr default_text)"
| "fill (Pattern pattern group_idx) args =
     (case args of
        [s] \<Rightarrow> if s = VNone then Inr (VStr []) else Inr s
      | _ \<Rightarrow> Inl TypeError)"
| "fill Integer args =
     (case args of
        [i] \<Rightarrow>
          if i = VNone then Inr (VStr [])
          else (case py_str i of Inl e \<Rightarrow> Inl e | Inr s \<Rightarrow> Inr (VStr s))
      | _ \<Rightarrow> Inl TypeError)"
| "fill (Append item_templates) args =
     (case args of
        [items] \<Rightarrow>
          if items = VNone then Inr (VStr [])
          else
            (case py_iter items of
               Inl e \<Rightarrow> Inl e
             | Inr xs \<Rightarrow>
                 (case sequence (map (\<lambda>(item_template, item). fill item_template [item])
                         (zip item_templates xs)) of
                    Inl e \<Rightarrow> Inl e
                  | Inr parts \<Rightarrow> py_join [] parts))
      | _ \<Rightarrow> Inl TypeError)"
| "fill (Repeat item_template delimiter trailing_delimiter) args =
     (case args of
        [values] \<Rightarrow>
          if values = VNone then Inr (VStr [])
          else
            (case fill delimiter [] of
               Inl e \<Rightarrow> Inl e
             | Inr d \<Rightarrow>
                 (case py_iter values of
                    Inl e \<Rightarrow> Inl e
                  | Inr vs \<Rightarrow>
                      repeat_join (Inr d) trailing_delimiter
                        (map (\<lambda>v. case item_template of
                                     Tm t \<Rightarrow> fill t [v]
                                   | _ \<Rightarrow> Inl AttributeError) vs)))
      | _ \<Rightarrow> Inl TypeError)"
| "fill (NumberedList item_template delimiter trailing_delimiter start_idx) args =
     (case args of
        [values] \<Rightarrow>
          if values = VNone then Inr (VStr [])
          else
            (case py_len values of
               Inl e \<Rightarrow> Inl e
             | Inr n \<Rightarrow>
                 (case py_iter values of
                    Inl e \<Rightarrow> Inl e
                  | Inr vs \<Rightarrow>
                      repeat_join (fill delimiter []) trailing_delimiter
                        (map (\<lambda>pair. case pair of
                                        Inl e \<Rightarrow> Inl e
                                      | Inr v \<Rightarrow>
                                          (case item_template of
                                             Tm t \<Rightarrow> fill t [v]
                                           | _ \<Rightarrow> Inl AttributeError))
                           (numbered start_idx vs))))
      | _ \<Rightarrow> Inl TypeError)"
| "fill (Affix prefix content suffix) args =
     (case args of
        [c] \<Rightarrow>
          (case fill prefix [] of
             Inl e \<Rightarrow> Inl e
           | Inr p \<Rightarrow>
               (case (case content of Tm t \<Rightarrow> fill t [c] | _ \<Rightarrow> Inl AttributeError) of
                  Inl e \<Rightarrow> Inl e
                | Inr x \<Rightarrow>
                    (case py_add p x of
                       Inl e \<Rightarrow> Inl e
                     | Inr filled \<Rightarrow>
                         (case suffix of
                            None \<Rightarrow> Inr filled
                          | Some sf \<Rightarrow>
                              if c \<noteq> VNone then
                                (case fill sf [] of Inl e \<Rightarrow> Inl e | Inr y \<Rightarrow> py_add filled y)
                              else Inr filled))))
      | _ \<Rightarrow> Inl TypeError)"
| "fill (Record fields) args =
     (case args of
        [rec] \<Rightarrow>
          if rec = VNone then Inr (VStr [])
          else
            (case sequence (map (\<lambda>(f_name, f). field_part rec f_name (\<lambda>x. fill f [x])) fields) of
               Inl e \<Rightarrow> Inl e
             | Inr parts \<Rightarrow> py_join [] (List.map_filter id parts))
      | _ \<Rightarrow> Inl TypeError)"
| "fill (Option value_templates) args =
     (case args of
        [val] \<Rightarrow>
          if val = VNone then Inr (VStr [])
          else if \<not> hashable val then Inl TypeError
          else
            (case key_lookup value_templates val of
               None \<Rightarrow> Inl KeyError
             | Some t \<Rightarrow> fill t [])
      | _ \<Rightarrow> Inl TypeError)"

  by pat_completeness auto

termination
  by (relation "measure (\<lambda>(t, args). size t)")
     (auto simp: size_list_estimation' less_Suc_eq_le dest!: set_zip_leftD key_lookup_size)


section \<open>\<open>_match\<close>\<close>

text \<open>
  The cursor \<open>StringPos\<close> holds the text, which never changes, and the position, which
  \<open>_match\<close> updates in place. \<open>match_sp t s pos\<close> is the call \<open>t._match(sp)\<close> with \<open>sp.s = s\<close> and
  \<open>sp.pos = pos\<close>: it gives the value returned (\<open>VNone\<close> for \<open>None\<close>) and the position that the
  cursor holds afterwards.
\<close>

definition group_val :: "string \<Rightarrow> captures \<Rightarrow> nat \<Rightarrow> pyval" where
  "group_val g0 caps i =
     (if i = 0 then VStr g0 else case map_of caps i of None \<Rightarrow> VNone | Some g \<Rightarrow> VStr g)"

definition fixed_match :: "regex \<Rightarrow> string \<Rightarrow> int \<Rightarrow> pyval \<times> int" where
  "fixed_match accepted_pattern s pos =
     (case re_match accepted_pattern s pos of
        None \<Rightarrow> (VNone, pos)
      | Some (g0, caps) \<Rightarrow> (VStr g0, pos + int (length g0)))"

definition pattern_match :: "regex \<Rightarrow> nat \<Rightarrow> string \<Rightarrow> int \<Rightarrow> pyval \<times> int" where
  "pattern_match pattern group_idx s pos =
     (case re_match pattern s pos of
        None \<Rightarrow> (VNone, pos)
      | Some (g0, caps) \<Rightarrow> (group_val g0 caps group_idx, pos + int (length g0)))"

definition integer_match :: "string \<Rightarrow> int \<Rightarrow> (pyval \<times> int) result" where
  "integer_match s pos =
     (case pattern_match int_pattern 0 s pos of
        (sv, pos') \<Rightarrow>
          (case py_int sv of
             Inl e \<Rightarrow> if e = ValueError \<or> e = TypeError then Inr (VNone, pos) else Inl e
           | Inr i \<Rightarrow> Inr (VInt i, pos')))"

text \<open>\<open>pair[1]\<close>\<close>

fun py_index1 :: "pyval \<Rightarrow> pyval result" where
  "py_index1 (VTuple xs) = (if 1 < length xs then Inr (xs ! 1) else Inl IndexError)"
| "py_index1 (VList xs) = (if 1 < length xs then Inr (xs ! 1) else Inl IndexError)"
| "py_index1 (VStr s) = (if 1 < length s then Inr (VStr [s ! 1]) else Inl IndexError)"
| "py_index1 (VDict d) = Inl KeyError"
| "py_index1 _ = Inl TypeError"

text \<open>
  The loop of \<open>Repeat._match\<close> is \<open>repeat_loop\<close>, which carries \<open>vals\<close>, \<open>i_revert\<close> and \<open>last_dm\<close>
  and gives their values, with the position, when the loop is left. An iteration in which
  item and delimiter both match and the position does not move would be repeated without
  end, since nothing but the position tells the next iteration from this one: there the
  outcome is \<open>Diverges\<close>. (\<open>repeat_progress\<close> below shows that the guard
  \<open>pos < pos2 \<and> pos2 \<le> length s\<close> fails only when the position has not moved.)
\<close>

function (sequential)
  match_sp :: "template \<Rightarrow> string \<Rightarrow> int \<Rightarrow> (pyval \<times> int) result"
  and match_append :: "template list \<Rightarrow> string \<Rightarrow> int \<Rightarrow> pyval list \<Rightarrow> (pyval \<times> int) result"
  and repeat_loop :: "arg \<Rightarrow> template \<Rightarrow> string \<Rightarrow> int \<Rightarrow> pyval list \<Rightarrow> int \<Rightarrow> pyval
        \<Rightarrow> (pyval list \<times> int \<times> pyval \<times> int) result"
  and match_record :: "(string \<times> template) list \<Rightarrow> string \<Rightarrow> int \<Rightarrow> (string \<times> pyval) list
        \<Rightarrow> (pyval \<times> int) result"
  and match_option :: "(pyval \<times> template) list \<Rightarrow> string \<Rightarrow> int \<Rightarrow> (pyval \<times> int) result"
where
  "match_sp (Fixed default_text accepted_pattern) s pos = Inr (fixed_match accepted_pattern s pos)"
| "match_sp (Pattern pattern group_idx) s pos = Inr (pattern_match pattern group_idx s pos)"
| "match_sp Integer s pos = integer_match s pos"
| "match_sp (Append item_templates) s pos = match_append item_templates s pos []"
| "match_sp (Repeat item_template delimiter trailing_delimiter) s pos =
     (case repeat_loop item_template delimiter s pos [] pos VNone of
        Inl e \<Rightarrow> Inl e
      | Inr (vals, i_revert, last_dm, pos') \<Rightarrow>
          Inr (VList vals, if last_dm \<noteq> VNone \<and> \<not> trailing_delimiter then i_revert else pos'))"
| "match_sp (NumberedList item_template delimiter trailing_delimiter start_idx) s pos =
     (case repeat_loop item_template delimiter s pos [] pos VNone of
        Inl e \<Rightarrow> Inl e
      | Inr (vals, i_revert, last_dm, pos') \<Rightarrow>
          (case sequence (map py_index1 vals) of
             Inl e \<Rightarrow> Inl e
           | Inr items \<Rightarrow>
               Inr (VList items,
                    if last_dm \<noteq> VNone \<and> \<not> trailing_delimiter then i_revert else pos')))"
| "match_sp (Affix prefix content suffix) s pos =
     (case match_sp prefix s pos of
        Inl e \<Rightarrow> Inl e
      | Inr (pm, pos1) \<Rightarrow>
          if pm = VNone then Inr (VNone, pos1)
          else
            (case (case content of Tm t \<Rightarrow> match_sp t s pos1 | _ \<Rightarrow> Inl AttributeError) of
               Inl e \<Rightarrow> Inl e
             | Inr (cm, pos2) \<Rightarrow>
                 if cm = VNone then Inr (VNone, pos2)
                 else
                   (case suffix of
                      None \<Rightarrow> Inr (cm, pos2)
                    | Some sf \<Rightarrow>
                        (case match_sp sf s pos2 of
                           Inl e \<Rightarrow> Inl e
                         | Inr (sm, pos3) \<Rightarrow> Inr (cm, pos3)))))"
| "match_sp (Record fields) s pos = match_record fields s pos []"
| "match_sp (Option value_templates) s pos = match_option value_templates s pos"
| "match_append [] s pos matches = Inr (VTuple matches, pos)"
| "match_append (item_template # rest) s pos matches =
     (case match_sp item_template s pos of
        Inl e \<Rightarrow> Inl e
      | Inr (m, pos') \<Rightarrow>
          if m = VNone then Inr (VNone, pos')
          else match_append rest s pos' (matches @ [m]))"
| "repeat_loop item_template delimiter s pos vals i_revert last_dm =
     (case (case item_template of Tm t \<Rightarrow> match_sp t s pos | _ \<Rightarrow> Inl AttributeError) of
        Inl e \<Rightarrow> Inl e
      | Inr (m, pos1) \<Rightarrow>
          if m = VNone then Inr (vals, i_revert, last_dm, pos1)
          else
            (case match_sp delimiter s pos1 of
               Inl e \<Rightarrow> Inl e
             | Inr (dm, pos2) \<Rightarrow>
                 if dm = VNone then Inr (vals @ [m], pos1, dm, pos2)
                 else if pos < pos2 \<and> pos2 \<le> int (length s)
                 then repeat_loop item_template delimiter s pos2 (vals @ [m]) pos1 dm
                 else Inl Diverges))"
| "match_record [] s pos rec = Inr (VDict rec, pos)"
| "match_record ((field_name, field_template) # rest) s pos rec =
     (case match_sp field_template s pos of
        Inl e \<Rightarrow> Inl e
      | Inr (m, pos') \<Rightarrow>
          match_record rest s pos' (if m \<noteq> VNone then AList.update field_name m rec else rec))"
| "match_option [] s pos = Inr (VNone, pos)"
| "match_option ((val, val_template) # rest) s pos =
     (case match_sp val_template s pos of
        Inl e \<Rightarrow> Inl e
      | Inr (m, pos') \<Rightarrow> if m \<noteq> VNone then Inr (val, pos') else match_option rest s pos')"
  by pat_completeness auto

termination
  by (relation "inv_image (less_than <*lex*> less_than)
        (case_sum
          (case_sum
            (\<lambda>(t, s, pos). (2 * size t, 0))
            (\<lambda>(ts, s, pos, matches). (2 * size_list size ts + 1, 0)))
          (case_sum
            (\<lambda>(a, d, s, pos, vals, i_revert, last_dm).
               (2 * (size a + size d) + 1, nat (int (length s) - pos)))
            (case_sum
              (\<lambda>(fs, s, pos, rec). (2 * size_list (size_prod (\<lambda>x. 0) size) fs + 1, 0))
              (\<lambda>(vs, s, pos). (2 * size_list (size_prod (\<lambda>x. 0) size) vs + 1, 0)))))")
     auto


section \<open>\<open>match\<close>\<close>

text \<open>
  \<open>Template.match(s, pos=0)\<close> builds a fresh cursor, calls \<open>_match\<close> on it and returns what
  \<open>_match\<close> returns; the cursor is dropped.
\<close>

definition match :: "template \<Rightarrow> string \<Rightarrow> int \<Rightarrow> pyval result" where
  "match t s pos = (case match_sp t s pos of Inl e \<Rightarrow> Inl e | Inr (v, pos') \<Rightarrow> Inr v)"


text \<open>
  The equation of \<open>repeat_loop\<close> calls \<open>repeat_loop\<close> again; it is unfolded by hand.
\<close>

declare repeat_loop.simps [simp del]

section \<open>The predefined templates\<close>

definition sentence_pattern :: string where
  "sentence_pattern =
     ''[^'' @ [CHR 0x5C] @ ''n'' @ [CHR 0x5C] @ ''.'' @ [CHR 0x5C] @ ''?'' @ [CHR 0x5C] @ ''!]+''
     @ ''['' @ [CHR 0x5C] @ ''.'' @ [CHR 0x5C] @ ''?'' @ [CHR 0x5C] @ ''!]?''"

definition sentence_start :: regex where
  "sentence_start =
     CharSet True [(CHR 0x0A, CHR 0x0A), (CHR ''.'', CHR ''.''), (CHR ''?'', CHR ''?''),
       (CHR ''!'', CHR ''!'')]"

definition sentence_end :: regex where
  "sentence_end = CharSet False [(CHR ''.'', CHR ''.''), (CHR ''?'', CHR ''?''), (CHR ''!'', CHR ''!'')]"

definition SENTENCE :: template where
  "SENTENCE = Pattern (Cat (Cat sentence_start (Star sentence_start)) (Alt sentence_end Epsilon)) 0"

definition EOL :: template where
  "EOL = Fixed [CHR 0x0A] (Lit (CHR 0x0A))"

definition SPACE :: template where
  "SPACE = Fixed '' '' (Cat (Lit CHR '' '') (Star (Lit CHR '' '')))"

definition YES_NO :: template where
  "YES_NO =
     Option [(VBool False, Fixed ''No'' (Cat (Lit CHR ''N'') (Lit CHR ''o''))),
             (VBool True, Fixed ''Yes'' (Cat (Lit CHR ''Y'') (Cat (Lit CHR ''e'') (Lit CHR ''s''))))]"

definition NUM :: template where
  "NUM = Integer"

section \<open>The position of the cursor\<close>

text \<open>
  \<open>within s pos pos'\<close>: the position has not moved back, and if it has moved at all it is
  still inside the text.
\<close>

definition within :: "string \<Rightarrow> int \<Rightarrow> int \<Rightarrow> bool" where
  "within s p p' = (p \<le> p' \<and> p' \<le> max p (int (length s)))"



section \<open>Templates of the examples\<close>

text \<open>\<open>Repeat(Pattern('[a-z]+'), ',', trailing_delimiter)\<close>\<close>

definition letters :: template where
  "letters =
     Pattern (Cat (CharSet False [(CHR ''a'', CHR ''z'')])
       (Star (CharSet False [(CHR ''a'', CHR ''z'')]))) 0"

definition comma_list :: "bool \<Rightarrow> template" where
  "comma_list trailing_delimiter =
     Repeat (Tm letters) (Fixed '','' (Lit CHR '','')) trailing_delimiter"

text \<open>\<open>NumberedList(Suffix(NUM, '. '), SENTENCE, EOL, trailing_delimiter)\<close>\<close>

definition num_label :: template where
  "num_label = Affix NOTHING (Tm NUM) (Some (Fixed ''. '' (Cat Dot (Lit CHR '' ''))))"

definition numbered_sentences :: "bool \<Rightarrow> template" where
  "numbered_sentences trailing_delimiter =
     NumberedList (Tm (Append [num_label, SENTENCE])) EOL trailing_delimiter 1"

text \<open>\<open>Append(NUM, ', ', NUM)\<close>\<close>

definition num_pair :: template where
  "num_pair = Append [NUM, Fixed '', '' (Cat (Lit CHR '','') (Lit CHR '' '')), NUM]"

text \<open>\<open>Affix('Q: ', SENTENCE, EOL)\<close>, the question field of the example.\<close>

definition q_prefix :: template where
  "q_prefix = Fixed ''Q: '' (Cat (Lit CHR ''Q'') (Cat (Lit CHR '':'') (Lit CHR '' '')))"

definition question :: template where
  "question = Affix q_prefix (Tm SENTENCE) (Some EOL)"

text \<open>\<open>Option({1: 'a', 2: 'ab'})\<close>\<close>

definition opt12 :: template where
  "opt12 =
     Option [(VInt 1, Fixed ''a'' (Lit CHR ''a'')),
             (VInt 2, Fixed ''ab'' (Cat (Lit CHR ''a'') (Lit CHR ''b'')))]"

text \<open>The record of the example: \<open>Record(question=Affix('Q: ', SENTENCE, EOL), answer=Prefix('A: ', YES_NO))\<close>\<close>

definition answer :: template where
  "answer = Affix (Fixed ''A: '' (Cat (Lit CHR ''A'') (Cat (Lit CHR '':'') (Lit CHR '' '')))) (Tm YES_NO) None"

definition qa_record :: template where
  "qa_record = Record [(''question'', question), (''answer'', answer)]"

text \<open>A question with its answer left open.\<close>

definition qa_text :: string where
  "qa_text = ''Q: Hi?'' @ [CHR 0x0A] @ ''A: ''"

text \<open>\<open>with_front acc r\<close> puts the entries \<open>acc\<close> before those of the dictionary that \<open>r\<close> returns.\<close>

definition with_front :: "(string \<times> pyval) list \<Rightarrow> (pyval \<times> int) result \<Rightarrow> (pyval \<times> int) result" where
  "with_front acc r =
     (case r of
        Inl e \<Rightarrow> Inl e
      | Inr (v, p) \<Rightarrow> Inr (case v of VDict d \<Rightarrow> VDict (acc @ d) | _ \<Rightarrow> v, p))"



text \<open>\<open>Affix('x', 'abc', '!')\<close> and \<open>Suffix('abc', '!')\<close>: a string where the content template belongs.\<close>

definition x_abc :: template where
  "x_abc = Affix (Fixed ''x'' (Lit CHR ''x'')) (Str ''abc'') (Some (Fixed ''!'' (Lit CHR ''!'')))"

definition abc_bang :: template where
  "abc_bang = Affix NOTHING (Str ''abc'') (Some (Fixed ''!'' (Lit CHR ''!'')))"

text \<open>
  A text without any of the characters that \<open>re.compile\<close> reads as syntax, and the \<open>Fixed\<close>
  that \<open>Fixed(d)\<close> builds from such a text.
\<close>

definition plain_char :: "char \<Rightarrow> bool" where
  "plain_char c = (c \<notin> set ([CHR 0x5C] @ ''[()|*+?.^${''))"

definition literal :: "string \<Rightarrow> template" where
  "literal d = Fixed d (seq (map Lit d))"









definition ab_record :: template where
  "ab_record =
     Record [(''a'', Affix NOTHING (Tm NUM) (Some (Fixed '' '' (Lit CHR '' '')))), (''b'', NUM)]"

text \<open>
  \<open>stars_ok r\<close>: no repetition in \<open>r\<close> has a body that can match the empty string; \<open>frame_ok\<close>
  and \<open>state_ok\<close> say the same of what the parser holds.
\<close>

fun stars_ok :: "regex \<Rightarrow> bool" where
  "stars_ok (Star a) = (\<not> nullable a \<and> stars_ok a)"
| "stars_ok (Cat a b) = (stars_ok a \<and> stars_ok b)"
| "stars_ok (Alt a b) = (stars_ok a \<and> stars_ok b)"
| "stars_ok (Group i a) = stars_ok a"
| "stars_ok _ = True"

fun frame_ok :: "frame \<Rightarrow> bool" where
  "frame_ok (Frame g alts items q) = (list_all stars_ok alts \<and> list_all stars_ok items)"

fun state_ok :: "pstate \<Rightarrow> bool" where
  "state_ok (PState fs n m) = list_all frame_ok fs"

section \<open>Lemmas\<close>

lemma int_pattern_compiled: "re_compile ''-?[0-9]+'' = Inr int_pattern"
  by (simp add: re_compile_def int_pattern_def)

lemma NOTHING_init: "Fixed_init [] None = Inr NOTHING"
  by (simp add: Fixed_init_def re_compile_def NOTHING_def)

lemma SENTENCE_init: "Pattern_init sentence_pattern = Inr SENTENCE"
  by (simp add: Pattern_init_def re_compile_def sentence_pattern_def SENTENCE_def
      sentence_start_def sentence_end_def escape_char_def is_alnum_def in_ranges_def)

lemma EOL_init: "Fixed_init [CHR 0x0A] None = Inr EOL"
  by (simp add: Fixed_init_def re_compile_def EOL_def)

lemma SPACE_init: "Fixed_init '' '' (Some '' +'') = Inr SPACE"
  by (simp add: Fixed_init_def re_compile_def SPACE_def)

lemma YES_NO_init: "Option_init [(VBool False, Str ''No''), (VBool True, Str ''Yes'')] = Inr YES_NO"
  by (simp add: Option_init_def Fixed_init_def re_compile_def YES_NO_def)

lemma re_match_len:
  assumes "re_match r s p = Some (g0, c)"
  shows "p + int (length g0) \<le> max p (int (length s))"
proof -
  define k where "k = nat (max 0 (min p (int (length s))))"
  from assms obtain n where "g0 = take n (drop k s)"
    by (auto simp: re_match_def Let_def k_def split: list.splits)
  then have "length g0 \<le> length s - k"
    by simp
  then have "int (length g0) \<le> int (length s) - int k \<or> length g0 = 0"
    by linarith
  then show ?thesis
    unfolding k_def by auto
qed

lemma fixed_match_bounds:
  "fixed_match r s p = (v, p') \<Longrightarrow> p \<le> p' \<and> p' \<le> max p (int (length s))"
  by (auto simp: fixed_match_def split: option.splits dest: re_match_len)

lemma pattern_match_bounds:
  "pattern_match r g s p = (v, p') \<Longrightarrow> p \<le> p' \<and> p' \<le> max p (int (length s))"
  by (auto simp: pattern_match_def split: option.splits dest: re_match_len)

lemma integer_match_bounds:
  "integer_match s p = Inr (v, p') \<Longrightarrow> p \<le> p' \<and> p' \<le> max p (int (length s))"
  by (auto simp: integer_match_def split: prod.splits sum.splits if_splits dest: pattern_match_bounds)

lemma within_trans: "within s p q \<Longrightarrow> within s q r \<Longrightarrow> within s p r"
  by (auto simp: within_def)

lemma within_refl: "within s p p"
  by (auto simp: within_def)

lemma match_bounds:
  "\<forall>v p'. match_sp t s p = Inr (v, p') \<longrightarrow> within s p p'"
  "\<forall>v p'. match_append ts s p acc = Inr (v, p') \<longrightarrow> within s p p'"
  "\<forall>vals' ir' dm' p'. repeat_loop a d s p vals ir dm = Inr (vals', ir', dm', p') \<longrightarrow>
      within s p p' \<and> (ir' = ir \<and> dm' = dm \<or> p \<le> ir' \<and> ir' \<le> p')"
  "\<forall>v p'. match_record fs s p rec = Inr (v, p') \<longrightarrow> within s p p'"
  "\<forall>v p'. match_option vs s p = Inr (v, p') \<longrightarrow> within s p p'"
proof (induction t s p and ts s p acc and a d s p vals ir dm and fs s p rec and vs s p
    rule: match_sp_match_append_repeat_loop_match_record_match_option.induct)
  case (1 default_text accepted_pattern s pos)
  then show ?case by (auto simp: within_def dest: fixed_match_bounds)
next
  case (2 pattern group_idx s pos)
  then show ?case by (auto simp: within_def dest: pattern_match_bounds)
next
  case (3 s pos)
  then show ?case by (auto simp: within_def dest: integer_match_bounds)
next
  case (4 item_templates s pos)
  then show ?case by simp
next
  case (5 item_template delimiter trailing_delimiter s pos)
  then show ?case by (auto simp: within_def split: sum.splits if_splits)
next
  case (6 item_template delimiter trailing_delimiter start_idx s pos)
  then show ?case by (auto simp: within_def split: sum.splits if_splits)
next
  case (7 prefix content suffix s pos)
  show ?case
  proof (intro allI impI)
    fix v p'
    assume m: "match_sp (Affix prefix content suffix) s pos = Inr (v, p')"
    then obtain pm pos1 where p: "match_sp prefix s pos = Inr (pm, pos1)"
      by (auto split: sum.splits)
    with 7(1) have w1: "within s pos pos1" by simp
    show "within s pos p'"
    proof (cases "pm = VNone")
      case True
      with m p w1 show ?thesis by simp
    next
      case False
      with m p obtain t where c: "content = Tm t"
        by (cases content) auto
      with m p False obtain cm pos2 where cmr: "match_sp t s pos1 = Inr (cm, pos2)"
        by (auto split: sum.splits)
      with 7(2)[OF p refl False c] have w2: "within s pos1 pos2" by simp
      show ?thesis
      proof (cases "cm = VNone")
        case True
        with m p False c cmr w1 w2 show ?thesis by (auto intro: within_trans)
      next
        case cmn: False
        show ?thesis
        proof (cases suffix)
          case None
          with m p False c cmr cmn w1 w2 show ?thesis by (auto intro: within_trans)
        next
          case (Some sf)
          with m p False c cmr cmn obtain sm where sr: "match_sp sf s pos2 = Inr (sm, p')"
            by (auto split: sum.splits)
          have "(case content of Tm t \<Rightarrow> match_sp t s pos1 | _ \<Rightarrow> Inl AttributeError) = Inr (cm, pos2)"
            using c cmr by simp
          from 7(3)[OF p refl False this refl cmn Some] sr have "within s pos2 p'" by simp
          with w1 w2 show ?thesis by (auto intro: within_trans)
        qed
      qed
    qed
  qed
next
  case (8 fields s pos)
  then show ?case by simp
next
  case (9 value_templates s pos)
  then show ?case by simp
next
  case (10 s pos matches)
  then show ?case by (simp add: within_refl)
next
  case (11 item_template rest s pos matches)
  show ?case
  proof (intro allI impI)
    fix v p'
    assume m: "match_append (item_template # rest) s pos matches = Inr (v, p')"
    then obtain x y where p: "match_sp item_template s pos = Inr (x, y)"
      by (auto split: sum.splits)
    with 11(1) have w1: "within s pos y" by simp
    show "within s pos p'"
    proof (cases "x = VNone")
      case True
      with m p w1 show ?thesis by simp
    next
      case False
      with m p have "match_append rest s y (matches @ [x]) = Inr (v, p')" by simp
      with 11(2)[OF p refl False] have "within s y p'" by simp
      with w1 show ?thesis by (auto intro: within_trans)
    qed
  qed
next
  case (12 item_template delimiter s pos vals i_revert last_dm)
  show ?case
  proof (intro allI impI)
    fix vals' ir' dm' p'
    assume m0: "repeat_loop item_template delimiter s pos vals i_revert last_dm = Inr (vals', ir', dm', p')"
    note m = m0[unfolded repeat_loop.simps[of item_template delimiter s pos vals i_revert last_dm]]
    then obtain t where c: "item_template = Tm t"
      by (cases item_template) auto
    with m obtain x y where p: "match_sp t s pos = Inr (x, y)"
      by (cases "match_sp t s pos") auto
    with 12(1)[OF c] have w1: "within s pos y" by simp
    have ce: "(case item_template of Tm t \<Rightarrow> match_sp t s pos | _ \<Rightarrow> Inl AttributeError) = Inr (x, y)"
      using c p by simp
    show "within s pos p' \<and> (ir' = i_revert \<and> dm' = last_dm \<or> pos \<le> ir' \<and> ir' \<le> p')"
    proof (cases "x = VNone")
      case True
      with m c p w1 show ?thesis by simp
    next
      case False
      with m c p obtain xa ya where dr: "match_sp delimiter s y = Inr (xa, ya)"
        by (cases "match_sp delimiter s y") auto
      with 12(2)[OF ce refl False] have w2: "within s y ya" by simp
      show ?thesis
      proof (cases "xa = VNone")
        case True
        with m c p False dr w1 w2 show ?thesis by (auto simp: within_def)
      next
        case xan: False
        with m c p False dr have g: "pos < ya \<and> ya \<le> int (length s)"
          by (auto split: if_splits)
        with m c p False dr xan
        have "repeat_loop item_template delimiter s ya (vals @ [x]) y xa = Inr (vals', ir', dm', p')"
          by simp
        with 12(3)[OF ce refl False dr refl xan g]
        have "within s ya p' \<and> (ir' = y \<and> dm' = xa \<or> ya \<le> ir' \<and> ir' \<le> p')" by simp
        with w1 w2 show ?thesis by (auto simp: within_def)
      qed
    qed
  qed
next
  case (13 s pos rec)
  then show ?case by (simp add: within_refl)
next
  case (14 field_name field_template rest s pos rec)
  show ?case
  proof (intro allI impI)
    fix v p'
    assume m: "match_record ((field_name, field_template) # rest) s pos rec = Inr (v, p')"
    then obtain x y where p: "match_sp field_template s pos = Inr (x, y)"
      by (auto split: sum.splits)
    with 14(1) have w1: "within s pos y" by simp
    from m p 14(2)[OF p refl] have "within s y p'" by simp
    with w1 show "within s pos p'" by (auto intro: within_trans)
  qed
next
  case (15 s pos)
  then show ?case by (simp add: within_refl)
next
  case (16 val val_template rest s pos)
  show ?case
  proof (intro allI impI)
    fix v p'
    assume m: "match_option ((val, val_template) # rest) s pos = Inr (v, p')"
    then obtain x y where p: "match_sp val_template s pos = Inr (x, y)"
      by (auto split: sum.splits)
    with 16(1) have w1: "within s pos y" by simp
    show "within s pos p'"
    proof (cases "x = VNone")
      case True
      with m p 16(2)[OF p refl] have "within s y p'" by simp
      with w1 show ?thesis by (auto intro: within_trans)
    next
      case False
      with m p w1 show ?thesis by simp
    qed
  qed
qed



section \<open>Integers and their decimal digits\<close>



















lemma rx_Alt_head: "rx a s = x # rs \<Longrightarrow> \<exists>rs'. rx (Alt a b) s = x # rs'"
  by simp

lemma rx_Alt_skip: "rx a s = [] \<Longrightarrow> rx (Alt a b) s = rx b s"
  by simp









section \<open>Repeat and its trailing delimiter\<close>

lemma letters_init: "Pattern_init ''[a-z]+'' = Inr letters"
  by (simp add: Pattern_init_def re_compile_def letters_def)

lemma comma_list_init: "Repeat_init (Tm letters) (Str '','') tr = Inr (comma_list tr)"
  by (simp add: Repeat_init_def Fixed_init_def re_compile_def comma_list_def)

lemma comma_list_fill:
  "fill (comma_list tr) [VList [VStr ''a'', VStr ''b'']] = Inr (VStr (if tr then ''a,b,'' else ''a,b''))"
  by (simp add: comma_list_def letters_def repeat_join_def py_join_def)

lemma comma_list_loop:
  "repeat_loop (Tm letters) (Fixed '','' (Lit CHR '','')) ''a,b,'' 0 [] 0 VNone
     = Inr ([VStr ''a'', VStr ''b''], 3, VStr '','', 4)"
  by (simp add: repeat_loop.simps letters_def pattern_match_def fixed_match_def re_match_def
      in_ranges_def group_val_def)

text \<open>
  Claim C5. For the \<open>Repeat\<close> template over items that render as \<open>a\<close> and \<open>b\<close> with the
  delimiter \<open>,\<close>: without trailing delimiter, \<open>fill(["a", "b"])\<close> is \<open>a,b\<close>, and \<open>_match\<close> on
  \<open>a,b,\<close> from position 0 gives \<open>["a", "b"]\<close> and leaves the cursor at 3, before the last
  comma: the loop ends at position 4 with the delimiter matched and the checkpoint 3, and
  the cursor is set back to the checkpoint. With trailing delimiter, \<open>fill(["a", "b"])\<close> is
  \<open>a,b,\<close>.
\<close>

theorem repeat_trailing_delimiter_law:
  "Pattern_init ''[a-z]+'' = Inr letters
   \<and> Repeat_init (Tm letters) (Str '','') False = Inr (comma_list False)
   \<and> Repeat_init (Tm letters) (Str '','') True = Inr (comma_list True)
   \<and> fill (comma_list False) [VList [VStr ''a'', VStr ''b'']] = Inr (VStr ''a,b'')
   \<and> repeat_loop (Tm letters) (Fixed '','' (Lit CHR '','')) ''a,b,'' 0 [] 0 VNone
       = Inr ([VStr ''a'', VStr ''b''], 3, VStr '','', 4)
   \<and> match_sp (comma_list False) ''a,b,'' 0 = Inr (VList [VStr ''a'', VStr ''b''], 3)
   \<and> match (comma_list False) ''a,b,'' 0 = Inr (VList [VStr ''a'', VStr ''b''])
   \<and> fill (comma_list True) [VList [VStr ''a'', VStr ''b'']] = Inr (VStr ''a,b,'')"
proof -
  have "match_sp (comma_list False) ''a,b,'' 0 = Inr (VList [VStr ''a'', VStr ''b''], 3)"
    by (simp add: comma_list_def comma_list_loop)
  then show ?thesis
    by (simp add: letters_init comma_list_init comma_list_fill comma_list_loop match_def)
qed

section \<open>NumberedList\<close>

lemma num_label_init: "Suffix_init (Tm NUM) (Str ''. '') = Inr num_label"
  by (simp add: Suffix_init_def Affix_init_def Fixed_init_def re_compile_def num_label_def)

lemma numbered_sentences_init:
  "NumberedList_init (Tm num_label) (Tm SENTENCE) (Tm EOL) tr 1 = Inr (numbered_sentences tr)"
  by (simp add: NumberedList_init_def Append_init_def numbered_sentences_def)

lemma str_int_1: "str_int 1 = ''1''"
  by code_simp

lemma str_int_2: "str_int 2 = ''2''"
  by code_simp

lemma int_to_str_1: "int_to_str 1 = Inr ''1''"
  by code_simp

lemma int_to_str_2: "int_to_str 2 = Inr ''2''"
  by code_simp

lemma numbered_sentences_fill:
  "fill (numbered_sentences tr) [VList [VStr ''First.'', VStr ''Second.'']]
     = Inr (VStr (''1. First.'' @ [CHR 0x0A] @ ''2. Second.'' @ (if tr then [CHR 0x0A] else [])))"
  by (simp add: numbered_sentences_def num_label_def SENTENCE_def EOL_def NUM_def NOTHING_def
      repeat_join_def py_join_def int_to_str_1 int_to_str_2)

text \<open>
  Claim C3, as stated, fails. \<open>NumberedList(Suffix(NUM, ". "), SENTENCE, EOL)\<close> leaves
  \<open>trailing_delimiter\<close> at its default \<open>False\<close>, and its \<open>fill(["First.", "Second."])\<close> is not
  the text that ends in a newline.
\<close>

theorem numbered_list_fill_counterexample:
  "Suffix_init (Tm NUM) (Str ''. '') = Inr num_label
   \<and> NumberedList_init (Tm num_label) (Tm SENTENCE) (Tm EOL) False 1 = Inr (numbered_sentences False)
   \<and> fill (numbered_sentences False) [VList [VStr ''First.'', VStr ''Second.'']]
       \<noteq> Inr (VStr (''1. First.'' @ [CHR 0x0A] @ ''2. Second.'' @ [CHR 0x0A]))"
  by (simp add: num_label_init numbered_sentences_init numbered_sentences_fill)

text \<open>
  Claim C3, amended. \<open>NumberedList(Suffix(NUM, ". "), SENTENCE, EOL).fill(["First.", "Second."])\<close>
  is \<open>1. First.\<close>, a newline, \<open>2. Second.\<close>: every item carries its decimal label counted from
  1, the newline stands between the items and none follows the last one. Built with
  \<open>trailing_delimiter=True\<close>, the same template adds the newline after the last item.
\<close>

theorem numbered_list_fill:
  "Suffix_init (Tm NUM) (Str ''. '') = Inr num_label
   \<and> NumberedList_init (Tm num_label) (Tm SENTENCE) (Tm EOL) False 1 = Inr (numbered_sentences False)
   \<and> NumberedList_init (Tm num_label) (Tm SENTENCE) (Tm EOL) True 1 = Inr (numbered_sentences True)
   \<and> fill (numbered_sentences False) [VList [VStr ''First.'', VStr ''Second.'']]
       = Inr (VStr (''1. First.'' @ [CHR 0x0A] @ ''2. Second.''))
   \<and> fill (numbered_sentences True) [VList [VStr ''First.'', VStr ''Second.'']]
       = Inr (VStr (''1. First.'' @ [CHR 0x0A] @ ''2. Second.'' @ [CHR 0x0A]))"
  by (simp add: num_label_init numbered_sentences_init numbered_sentences_fill)

section \<open>Append.fill and the number of items\<close>

lemma num_pair_init: "Append_init [Tm NUM, Str '', '', Tm NUM] = Inr num_pair"
  by (simp add: Append_init_def Fixed_init_def re_compile_def num_pair_def)

lemma zip_take_min:
  "zip (take (min (length ts) (length xs)) ts) (take (min (length ts) (length xs)) xs) = zip ts xs"
  by (simp add: take_zip[symmetric])

text \<open>
  Claim C4, as stated, fails. \<open>Append(NUM, ', ', NUM)\<close> has three sub-templates; \<open>fill\<close> with
  one item and \<open>fill\<close> with four items both return a string.
\<close>

theorem append_fill_counterexample:
  "Append_init [Tm NUM, Str '', '', Tm NUM] = Inr num_pair
   \<and> fill num_pair [VTuple [VInt 1]] = Inr (VStr ''1'')
   \<and> fill num_pair [VTuple [VInt 1, VNone, VInt 2, VInt 3]] = Inr (VStr ''1, 2'')"
proof -
  have "fill num_pair [VTuple [VInt 1]] = Inr (VStr ''1'')"
    by (simp add: num_pair_def NUM_def py_join_def int_to_str_1)
  moreover have "fill num_pair [VTuple [VInt 1, VNone, VInt 2, VInt 3]] = Inr (VStr ''1, 2'')"
    by (simp add: num_pair_def NUM_def py_join_def int_to_str_1 int_to_str_2)
  ultimately show ?thesis
    by (simp add: num_pair_init)
qed

text \<open>
  Claim C4, amended. \<open>Append.fill(items)\<close> pairs the sub-templates with the items by \<open>zip\<close>:
  whatever the two lengths are, it does what it does on the first \<open>min\<close> of them many
  sub-templates and items, so a difference in arity is never an error by itself.
\<close>

theorem append_fill_truncates:
  "fill (Append ts) [VTuple xs]
     = fill (Append (take (min (length ts) (length xs)) ts))
         [VTuple (take (min (length ts) (length xs)) xs)]
   \<and> fill (Append ts) [VList xs]
     = fill (Append (take (min (length ts) (length xs)) ts))
         [VList (take (min (length ts) (length xs)) xs)]"
  by (simp add: zip_take_min del: length_take)

section \<open>Affix and its suffix\<close>

lemma question_init: "Affix_init (Str ''Q: '') (Tm SENTENCE) (Some (Tm EOL)) = Inr question"
  by (simp add: Affix_init_def Fixed_init_def re_compile_def question_def q_prefix_def)

text \<open>
  Claim C6. When the prefix and the content of an \<open>Affix\<close> have matched, the suffix is
  attempted and its outcome is not looked at: the node returns the value of the content,
  and the cursor is where the suffix leaves it. For a \<open>Fixed\<close> suffix that is after the
  matched text when the suffix matches and unchanged when it does not.
\<close>

theorem affix_suffix_unchecked:
  assumes "match_sp prefix s pos = Inr (pm, pos1)" and "pm \<noteq> VNone"
    and "match_sp content s pos1 = Inr (cm, pos2)" and "cm \<noteq> VNone"
  shows "match_sp (Affix prefix (Tm content) (Some (Fixed d r))) s pos
           = Inr (cm, case re_match r s pos2 of
                        None \<Rightarrow> pos2
                      | Some (g0, caps) \<Rightarrow> pos2 + int (length g0))
         \<and> (\<forall>sf sm pos3. match_sp sf s pos2 = Inr (sm, pos3) \<longrightarrow>
               match_sp (Affix prefix (Tm content) (Some sf)) s pos = Inr (cm, pos3))"
  using assms by (simp add: fixed_match_def split: option.splits)

lemma q_prefix_match: "match_sp q_prefix (''Q: Hi?'' @ rest) 0 = Inr (VStr ''Q: '', 3)"
  by (simp add: q_prefix_def fixed_match_def re_match_def)

lemma sentence_match_1: "match_sp SENTENCE ''Q: Hi?'' 3 = Inr (VStr ''Hi?'', 6)"
  by (simp add: SENTENCE_def sentence_start_def sentence_end_def pattern_match_def re_match_def
      in_ranges_def group_val_def)

lemma sentence_match_2: "match_sp SENTENCE (''Q: Hi?'' @ [CHR 0x0A]) 3 = Inr (VStr ''Hi?'', 6)"
  by (simp add: SENTENCE_def sentence_start_def sentence_end_def pattern_match_def re_match_def
      in_ranges_def group_val_def)

text \<open>
  \<open>Affix('Q: ', SENTENCE, EOL)\<close> on a question without and with its newline: the same value,
  the cursor after the sentence and after the newline.
\<close>

theorem affix_suffix_unchecked_witness:
  "match_sp question ''Q: Hi?'' 0 = Inr (VStr ''Hi?'', 6)
   \<and> match_sp question (''Q: Hi?'' @ [CHR 0x0A]) 0 = Inr (VStr ''Hi?'', 7)"
proof -
  have a: "match_sp question ''Q: Hi?'' 0 = Inr (VStr ''Hi?'', 6)"
    using affix_suffix_unchecked[of q_prefix "''Q: Hi?''" 0 "VStr ''Q: ''" 3 SENTENCE "VStr ''Hi?''" 6
        "[CHR 0x0A]" "Lit (CHR 0x0A)", THEN conjunct1]
      q_prefix_match[of "[]"] sentence_match_1
    by (simp add: question_def EOL_def re_match_def)
  have b: "match_sp question (''Q: Hi?'' @ [CHR 0x0A]) 0 = Inr (VStr ''Hi?'', 7)"
    using affix_suffix_unchecked[of q_prefix "''Q: Hi?'' @ [CHR 0x0A]" 0 "VStr ''Q: ''" 3 SENTENCE
        "VStr ''Hi?''" 6 "[CHR 0x0A]" "Lit (CHR 0x0A)", THEN conjunct1]
      q_prefix_match[of "[CHR 0x0A]"] sentence_match_2
    by (simp add: question_def EOL_def re_match_def)
  from a b show ?thesis by simp
qed

section \<open>Option and the order of its values\<close>

lemma opt12_init: "Option_init [(VInt 1, Str ''a''), (VInt 2, Str ''ab'')] = Inr opt12"
  by (simp add: Option_init_def Fixed_init_def re_compile_def opt12_def)

lemma fixed_fail_keeps_cursor:
  "re_match r s pos = None \<Longrightarrow> match_sp (Fixed d r) s pos = Inr (VNone, pos)"
  by (simp add: fixed_match_def)

text \<open>
  Claim C8. \<open>Option._match\<close> tries the templates of its values in the order of the
  dictionary and returns the first value whose template matches, with the cursor where
  that match leaves it: the alternatives before it have failed without moving the cursor
  (as a \<open>Fixed\<close> that fails does, \<open>fixed_fail_keeps_cursor\<close>), and the alternatives after it
  are not looked at.
\<close>

theorem option_first_match:
  assumes "\<forall>(v', t') \<in> set before. match_sp t' s pos = Inr (VNone, pos)"
    and "match_sp t s pos = Inr (m, pos')" and "m \<noteq> VNone"
  shows "match_sp (Option (before @ (v, t) # rest)) s pos = Inr (v, pos')"
proof -
  have "match_option (before @ (v, t) # rest) s pos = Inr (v, pos')"
    using assms by (induction before) auto
  then show ?thesis by simp
qed

text \<open>
  \<open>Option({1: "a", 2: "ab"})\<close> on \<open>ab\<close> returns 1 and consumes one character, although the
  second alternative would match more; \<open>YES_NO\<close> on \<open>Yes\<close> passes over \<open>No\<close>.
\<close>

theorem option_first_match_witness:
  "Option_init [(VInt 1, Str ''a''), (VInt 2, Str ''ab'')] = Inr opt12
   \<and> match_sp opt12 ''ab'' 0 = Inr (VInt 1, 1)
   \<and> match opt12 ''ab'' 0 = Inr (VInt 1)
   \<and> match_sp YES_NO ''Yes'' 0 = Inr (VBool True, 3)"
proof -
  have a: "match_sp (Fixed ''a'' (Lit CHR ''a'')) ''ab'' 0 = Inr (VStr ''a'', 1)"
    by (simp add: fixed_match_def re_match_def)
  have "match_sp (Option ([] @ (VInt 1, Fixed ''a'' (Lit CHR ''a''))
          # [(VInt 2, Fixed ''ab'' (Cat (Lit CHR ''a'') (Lit CHR ''b'')))])) ''ab'' 0 = Inr (VInt 1, 1)"
    by (rule option_first_match[OF _ a]) simp_all
  then have b: "match_sp opt12 ''ab'' 0 = Inr (VInt 1, 1)"
    by (simp add: opt12_def)
  have no: "\<forall>(v', t') \<in> set [(VBool False, Fixed ''No'' (Cat (Lit CHR ''N'') (Lit CHR ''o'')))].
      match_sp t' ''Yes'' 0 = Inr (VNone, 0)"
    by (simp add: fixed_match_def re_match_def)
  have yes: "match_sp (Fixed ''Yes'' (Cat (Lit CHR ''Y'') (Cat (Lit CHR ''e'') (Lit CHR ''s'')))) ''Yes'' 0
      = Inr (VStr ''Yes'', 3)"
    by (simp add: fixed_match_def re_match_def)
  have "match_sp (Option ([(VBool False, Fixed ''No'' (Cat (Lit CHR ''N'') (Lit CHR ''o'')))]
          @ (VBool True, Fixed ''Yes'' (Cat (Lit CHR ''Y'') (Cat (Lit CHR ''e'') (Lit CHR ''s'')))) # []))
          ''Yes'' 0 = Inr (VBool True, 3)"
    by (rule option_first_match[OF no yes]) simp
  then have c: "match_sp YES_NO ''Yes'' 0 = Inr (VBool True, 3)"
    by (simp add: YES_NO_def)
  from b c show ?thesis
    by (simp add: opt12_init match_def)
qed

section \<open>Record and its fields\<close>

lemma answer_init: "Affix_init (Str ''A: '') (Tm YES_NO) None = Inr answer"
  by (simp add: Affix_init_def Fixed_init_def re_compile_def answer_def)

lemma qa_record_init:
  "Record_init [(''question'', Tm question), (''answer'', Tm answer)] = Inr qa_record"
  by (simp add: Record_init_def qa_record_def)

lemma match_record_is_dict:
  "match_record fs s p rec = Inr (v, p') \<Longrightarrow> \<exists>d. v = VDict d"
  by (induction fs arbitrary: p rec) (auto split: sum.splits)

lemma update_fresh: "k \<notin> fst ` set acc \<Longrightarrow> AList.update k v acc = acc @ [(k, v)]"
  by (induction acc) auto

lemma with_front_append: "with_front acc (with_front acc' r) = with_front (acc @ acc') r"
  by (auto simp: with_front_def split: sum.splits pyval.splits)

lemma match_record_acc:
  "distinct (map fst fs) \<Longrightarrow> fst ` set acc \<inter> fst ` set fs = {} \<Longrightarrow>
   match_record fs s p acc = with_front acc (match_record fs s p [])"
proof (induction fs arbitrary: p acc)
  case Nil
  then show ?case by (simp add: with_front_def)
next
  case (Cons f fs)
  obtain n t where f: "f = (n, t)" by (cases f)
  show ?case
  proof (cases "match_sp t s p")
    case (Inl e)
    then show ?thesis by (simp add: f with_front_def)
  next
    case (Inr b)
    obtain m p1 where b: "b = (m, p1)" by (cases b)
    show ?thesis
    proof (cases "m = VNone")
      case True
      from Cons.prems f have d: "distinct (map fst fs)" by simp
      from Cons.prems f have i: "fst ` set acc \<inter> fst ` set fs = {}" by auto
      have "match_record (f # fs) s p acc = match_record fs s p1 acc"
        using Inr b f True by simp
      also have "\<dots> = with_front acc (match_record fs s p1 [])"
        by (rule Cons.IH[OF d i])
      also have "match_record fs s p1 [] = match_record (f # fs) s p []"
        using Inr b f True by simp
      finally show ?thesis .
    next
      case False
      from Cons.prems f have fresh: "n \<notin> fst ` set acc" by auto
      from Cons.prems f have d: "distinct (map fst fs)" by simp
      from Cons.prems f have i1: "fst ` set (acc @ [(n, m)]) \<inter> fst ` set fs = {}" by auto
      from Cons.prems f have i2: "fst ` set [(n, m)] \<inter> fst ` set fs = {}" by auto
      have "match_record (f # fs) s p acc = match_record fs s p1 (acc @ [(n, m)])"
        using Inr b f False fresh by (simp add: update_fresh)
      also have "\<dots> = with_front (acc @ [(n, m)]) (match_record fs s p1 [])"
        by (rule Cons.IH[OF d i1])
      also have "\<dots> = with_front acc (with_front [(n, m)] (match_record fs s p1 []))"
        by (simp add: with_front_append)
      also have "with_front [(n, m)] (match_record fs s p1 []) = match_record fs s p1 [(n, m)]"
        by (rule Cons.IH[OF d i2, symmetric])
      also have "match_record fs s p1 [(n, m)] = match_record (f # fs) s p []"
        using Inr b f False by simp
      finally show ?thesis .
    qed
  qed
qed

lemma match_record_total:
  "\<forall>(n, t) \<in> set fs. \<forall>q. \<exists>m q'. match_sp t s q = Inr (m, q') \<Longrightarrow>
   \<exists>d p'. match_record fs s p rec = Inr (VDict d, p')"
proof (induction fs arbitrary: p rec)
  case Nil
  then show ?case by simp
next
  case (Cons f fs)
  obtain n t where f: "f = (n, t)" by (cases f)
  with Cons.prems obtain m q' where m: "match_sp t s p = Inr (m, q')"
    by fastforce
  from Cons.prems have "\<forall>(n, t) \<in> set fs. \<forall>q. \<exists>m q'. match_sp t s q = Inr (m, q')"
    by simp
  from Cons.IH[OF this] f m show ?case by simp
qed

text \<open>
  Claim C7. \<open>Record._match\<close> never reports failure: what it returns is a dictionary, and
  it returns whenever its field templates do. The fields are attempted in the order of
  their declaration, each at the position where the one before has left the cursor: a
  field that does not match is left out of the dictionary and matching goes on with the
  remaining fields; a field that matches comes first in the dictionary, before the entries
  of the remaining fields.
\<close>

theorem record_match_never_fails:
  "(\<forall>v pos'. match_sp (Record fields) s pos = Inr (v, pos') \<longrightarrow> (\<exists>rec. v = VDict rec))
   \<and> ((\<forall>(n, t) \<in> set fields. \<forall>q. \<exists>m q'. match_sp t s q = Inr (m, q')) \<longrightarrow>
        (\<exists>rec pos'. match_sp (Record fields) s pos = Inr (VDict rec, pos')))
   \<and> match_sp (Record []) s pos = Inr (VDict [], pos)
   \<and> (match_sp field_template s pos = Inr (VNone, pos1) \<longrightarrow>
        match_sp (Record ((field_name, field_template) # rest)) s pos = match_sp (Record rest) s pos1)
   \<and> (match_sp field_template s pos = Inr (m, pos1) \<and> m \<noteq> VNone
        \<and> distinct (field_name # map fst rest)
        \<and> match_sp (Record rest) s pos1 = Inr (VDict rec, pos2) \<longrightarrow>
        match_sp (Record ((field_name, field_template) # rest)) s pos
          = Inr (VDict ((field_name, m) # rec), pos2))"
proof (intro conjI allI impI)
  fix v pos'
  assume "match_sp (Record fields) s pos = Inr (v, pos')"
  then show "\<exists>rec. v = VDict rec"
    by (auto dest: match_record_is_dict)
next
  assume "\<forall>(n, t) \<in> set fields. \<forall>q. \<exists>m q'. match_sp t s q = Inr (m, q')"
  from match_record_total[OF this] show "\<exists>rec pos'. match_sp (Record fields) s pos = Inr (VDict rec, pos')"
    by simp
next
  show "match_sp (Record []) s pos = Inr (VDict [], pos)"
    by simp
next
  assume "match_sp field_template s pos = Inr (VNone, pos1)"
  then show "match_sp (Record ((field_name, field_template) # rest)) s pos = match_sp (Record rest) s pos1"
    by simp
next
  assume a: "match_sp field_template s pos = Inr (m, pos1) \<and> m \<noteq> VNone
        \<and> distinct (field_name # map fst rest)
        \<and> match_sp (Record rest) s pos1 = Inr (VDict rec, pos2)"
  then have "match_record rest s pos1 [(field_name, m)] = with_front [(field_name, m)] (match_record rest s pos1 [])"
    by (intro match_record_acc) auto
  with a show "match_sp (Record ((field_name, field_template) # rest)) s pos
          = Inr (VDict ((field_name, m) # rec), pos2)"
    by (simp add: with_front_def)
qed


lemma question_on_qa_text: "match_sp question qa_text 0 = Inr (VStr ''Hi?'', 7)"
  by (simp add: qa_text_def question_def q_prefix_def SENTENCE_def EOL_def sentence_start_def
      sentence_end_def fixed_match_def pattern_match_def re_match_def in_ranges_def group_val_def)

lemma answer_on_qa_text: "match_sp answer qa_text 7 = Inr (VNone, 10)"
  by (simp add: qa_text_def answer_def YES_NO_def fixed_match_def re_match_def)

lemma py_int_errors: "py_int v = Inl e \<Longrightarrow> e = ValueError \<or> e = TypeError"
  by (cases v) (auto simp: int_digits_def split: list.splits if_splits sum.splits)

lemma integer_returns: "\<exists>m q'. match_sp Integer s q = Inr (m, q')"
  by (auto simp: integer_match_def split: prod.splits sum.splits dest: py_int_errors)

text \<open>
  The record of the example on a question whose answer is missing: the prefix of the
  answer matches, its content does not, and the dictionary has the question alone.
\<close>

theorem record_match_never_fails_witness:
  "Record_init [(''question'', Tm question), (''answer'', Tm answer)] = Inr qa_record
   \<and> match_sp qa_record qa_text 0 = Inr (VDict [(''question'', VStr ''Hi?'')], 10)
   \<and> (\<exists>rec. VDict [(''question'', VStr ''Hi?'')] = VDict rec)
   \<and> (\<exists>rec pos'. match_sp (Record [(''n'', NUM)]) ''12'' 0 = Inr (VDict rec, pos'))"
proof -
  have e: "match_sp (Record []) qa_text 10 = Inr (VDict [], 10)"
    using record_match_never_fails[of "[]" qa_text 10] by simp
  have "match_sp (Record ((''answer'', answer) # [])) qa_text 7 = match_sp (Record []) qa_text 10"
    using record_match_never_fails[of "[]" qa_text 7 answer 10 "''answer''" "[]"] answer_on_qa_text
    by blast
  with e have a: "match_sp (Record [(''answer'', answer)]) qa_text 7 = Inr (VDict [], 10)"
    by simp
  have "match_sp (Record ((''question'', question) # [(''answer'', answer)])) qa_text 0
      = Inr (VDict ((''question'', VStr ''Hi?'') # []), 10)"
    using record_match_never_fails[of "[]" qa_text 0 question 7 "''question''" "[(''answer'', answer)]"
        "VStr ''Hi?''" "[]" 10] question_on_qa_text a
    by simp
  then have r: "match_sp qa_record qa_text 0 = Inr (VDict [(''question'', VStr ''Hi?'')], 10)"
    unfolding qa_record_def .
  have d: "\<exists>rec. VDict [(''question'', VStr ''Hi?'')] = VDict rec"
    using record_match_never_fails[of "[(''question'', question), (''answer'', answer)]" qa_text 0] r
    unfolding qa_record_def by blast
  have "\<forall>(n, t) \<in> set [(''n'', NUM)]. \<forall>q. \<exists>m q'. match_sp t ''12'' q = Inr (m, q')"
    using integer_returns by (simp add: NUM_def)
  with record_match_never_fails[of "[(''n'', NUM)]" "''12''" 0]
  have t: "\<exists>rec pos'. match_sp (Record [(''n'', NUM)]) ''12'' 0 = Inr (VDict rec, pos')"
    by blast
  from r d t show ?thesis
    by (simp add: qa_record_init)
qed

section \<open>Where a match attempt leaves the cursor\<close>


















section \<open>Affix with a string as content\<close>

lemma x_abc_init: "Affix_init (Str ''x'') (Str ''abc'') (Some (Str ''!'')) = Inr x_abc"
  by (simp add: Affix_init_def Fixed_init_def re_compile_def x_abc_def)

lemma abc_bang_init: "Suffix_init (Str ''abc'') (Str ''!'') = Inr abc_bang"
  by (simp add: Suffix_init_def Affix_init_def Fixed_init_def re_compile_def abc_bang_def)

lemma x_abc_on_y: "match_sp x_abc ''y'' 0 = Inr (VNone, 0)"
  by (simp add: x_abc_def fixed_match_def re_match_def)

text \<open>
  Claim C10, as stated, fails. \<open>Affix('x', 'abc', '!')\<close> holds the string \<open>abc\<close> as its
  content, and its \<open>match\<close> on \<open>y\<close> raises nothing: the prefix does not match, and \<open>None\<close> is
  returned before the content is touched.
\<close>

theorem affix_string_content_counterexample:
  "Affix_init (Str ''x'') (Str ''abc'') (Some (Str ''!'')) = Inr x_abc
   \<and> match_sp x_abc ''y'' 0 = Inr (VNone, 0)
   \<and> match x_abc ''y'' 0 = Inr VNone
   \<and> match x_abc ''y'' 0 \<noteq> Inl AttributeError"
  by (simp add: x_abc_init x_abc_on_y match_def)

lemma affix_init_stores:
  "Affix_init prefix content sfx = Inr a \<Longrightarrow>
     \<exists>pre sf. a = Affix pre content sf \<and> str_to_fixed prefix = Inr pre
       \<and> (case sfx of None \<Rightarrow> sf = None | Some x \<Rightarrow> \<exists>y. sf = Some y \<and> str_to_fixed x = Inr y)"
  by (auto simp: Affix_init_def split: sum.splits option.splits)

lemma nothing_matches: "re_match Epsilon s pos = Some ([], [])"
  by (simp add: re_match_def)

text \<open>
  Claim C10, amended. \<open>Affix\<close> passes its prefix and its suffix through \<open>str_to_fixed\<close> and
  stores its content as it is. With a string as content and a \<open>Fixed\<close> prefix, \<open>fill\<close> raises
  \<open>AttributeError\<close>, and \<open>match\<close> raises \<open>AttributeError\<close> when the prefix matches at the cursor
  and returns \<open>None\<close> when it does not. A \<open>Suffix\<close> with a string as content has the prefix
  \<open>NOTHING\<close>, which always matches: both \<open>fill\<close> and \<open>match\<close> raise \<open>AttributeError\<close>.
\<close>

theorem affix_string_content:
  "(Affix_init prefix (Str c) sfx = Inr a \<longrightarrow>
      (\<exists>pre sf. a = Affix pre (Str c) sf \<and> str_to_fixed prefix = Inr pre
         \<and> (case sfx of None \<Rightarrow> sf = None | Some x \<Rightarrow> \<exists>y. sf = Some y \<and> str_to_fixed x = Inr y)))
   \<and> fill (Affix (Fixed d r) (Str c) sf) [v] = Inl AttributeError
   \<and> match_sp (Affix (Fixed d r) (Str c) sf) s pos
       = (case re_match r s pos of None \<Rightarrow> Inr (VNone, pos) | Some m \<Rightarrow> Inl AttributeError)
   \<and> match (Affix (Fixed d r) (Str c) sf) s pos
       = (case re_match r s pos of None \<Rightarrow> Inr VNone | Some m \<Rightarrow> Inl AttributeError)
   \<and> (Suffix_init (Str c) x = Inr b \<longrightarrow>
        fill b [v] = Inl AttributeError \<and> match_sp b s pos = Inl AttributeError
        \<and> match b s pos = Inl AttributeError)"
proof (intro conjI impI)
  assume "Affix_init prefix (Str c) sfx = Inr a"
  from affix_init_stores[OF this]
  show "\<exists>pre sf. a = Affix pre (Str c) sf \<and> str_to_fixed prefix = Inr pre
         \<and> (case sfx of None \<Rightarrow> sf = None | Some x \<Rightarrow> \<exists>y. sf = Some y \<and> str_to_fixed x = Inr y)" .
next
  show "fill (Affix (Fixed d r) (Str c) sf) [v] = Inl AttributeError"
    by simp
next
  show m: "match_sp (Affix (Fixed d r) (Str c) sf) s pos
       = (case re_match r s pos of None \<Rightarrow> Inr (VNone, pos) | Some m \<Rightarrow> Inl AttributeError)"
    by (simp add: fixed_match_def split: option.splits)
  show "match (Affix (Fixed d r) (Str c) sf) s pos
       = (case re_match r s pos of None \<Rightarrow> Inr VNone | Some m \<Rightarrow> Inl AttributeError)"
    unfolding match_def m by (simp split: option.splits)
next
  assume "Suffix_init (Str c) x = Inr b"
  then obtain sf where b: "b = Affix NOTHING (Str c) sf"
    by (auto simp: Suffix_init_def dest!: affix_init_stores)
  show "fill b [v] = Inl AttributeError"
    by (simp add: b NOTHING_def)
  show "match_sp b s pos = Inl AttributeError"
    by (simp add: b NOTHING_def fixed_match_def nothing_matches)
  then show "match b s pos = Inl AttributeError"
    by (simp add: match_def)
qed

text \<open>\<open>Affix('x', 'abc', '!')\<close> and \<open>Suffix('abc', '!')\<close>.\<close>

theorem affix_string_content_witness:
  "Affix_init (Str ''x'') (Str ''abc'') (Some (Str ''!'')) = Inr x_abc
   \<and> fill x_abc [VStr ''abc''] = Inl AttributeError
   \<and> match x_abc ''xabc!'' 0 = Inl AttributeError
   \<and> match x_abc ''y'' 0 = Inr VNone
   \<and> Suffix_init (Str ''abc'') (Str ''!'') = Inr abc_bang
   \<and> fill abc_bang [VStr ''abc''] = Inl AttributeError
   \<and> match abc_bang ''abc!'' 0 = Inl AttributeError
   \<and> (\<exists>pre sf. x_abc = Affix pre (Str ''abc'') sf \<and> str_to_fixed (Str ''x'') = Inr pre
         \<and> (\<exists>y. sf = Some y \<and> str_to_fixed (Str ''!'') = Inr y))"
proof -
  note r = affix_string_content[where d = "''x''" and r = "Lit CHR ''x''" and c = "''abc''"
      and sf = "Some (Fixed ''!'' (Lit CHR ''!''))" and x = "Str ''!''" and b = abc_bang
      and v = "VStr ''abc''"]
  from r have f: "fill x_abc [VStr ''abc''] = Inl AttributeError"
    unfolding x_abc_def by blast
  from r[where s = "''xabc!''" and pos = 0]
  have m1: "match x_abc ''xabc!'' 0 = Inl AttributeError"
    unfolding x_abc_def by (simp add: re_match_def)
  from r[where s = "''y''" and pos = 0]
  have m2: "match x_abc ''y'' 0 = Inr VNone"
    unfolding x_abc_def by (simp add: re_match_def)
  from r[where s = "''abc!''" and pos = 0] abc_bang_init
  have s: "fill abc_bang [VStr ''abc''] = Inl AttributeError \<and> match abc_bang ''abc!'' 0 = Inl AttributeError"
    by blast
  from affix_string_content[where prefix = "Str ''x''" and c = "''abc''" and sfx = "Some (Str ''!'')"
      and a = x_abc] x_abc_init
  have e: "\<exists>pre sf. x_abc = Affix pre (Str ''abc'') sf \<and> str_to_fixed (Str ''x'') = Inr pre
         \<and> (\<exists>y. sf = Some y \<and> str_to_fixed (Str ''!'') = Inr y)"
    by simp
  from f m1 m2 s e show ?thesis
    by (simp add: x_abc_init abc_bang_init)
qed

section \<open>What match returns\<close>

lemma step_plain:
  "plain_char c \<Longrightarrow>
   step (PState (Frame g alts items q # fs) n Normal) c
     = Inr (PState (Frame g alts (Lit c # items) False # fs) n Normal)"
  by (simp add: plain_char_def)

lemma parse_plain:
  "list_all plain_char d \<Longrightarrow>
   parse (PState [Frame g [] items q] n Normal) d = Inr (seq (rev items @ map Lit d))"
proof (induction d arbitrary: items q)
  case Nil
  then show ?case by simp
next
  case (Cons c d)
  then have "parse (PState [Frame g [] items q] n Normal) (c # d)
      = parse (PState [Frame g [] (Lit c # items) False] n Normal) d"
    by (simp add: step_plain del: step.simps)
  also have "\<dots> = Inr (seq (rev (Lit c # items) @ map Lit d))"
    using Cons by simp
  finally show ?case by simp
qed

lemma re_compile_plain: "list_all plain_char d \<Longrightarrow> re_compile d = Inr (seq (map Lit d))"
  using parse_plain[of d 0 "[]" False 0] by (simp add: re_compile_def)

lemma literal_init: "list_all plain_char d \<Longrightarrow> Fixed_init d None = Inr (literal d)"
  by (simp add: Fixed_init_def re_compile_plain literal_def)

lemma rx_literal: "rx (seq (map Lit d)) (d @ rest) = [(length d, [])]"
proof (induction d)
  case Nil
  then show ?case by simp
next
  case (Cons c d)
  show ?case
  proof (cases d)
    case Nil
    then show ?thesis by simp
  next
    case (Cons c' d')
    with Cons.IH show ?thesis by simp
  qed
qed

lemma re_match_literal:
  "re_match (seq (map Lit d)) (pre @ d @ rest) (int (length pre)) = Some (d, [])"
  by (simp add: re_match_def rx_literal)

lemma literal_match:
  "match_sp (literal d) (pre @ d @ rest) (int (length pre))
     = Inr (VStr d, int (length pre) + int (length d))"
  by (simp add: literal_def fixed_match_def re_match_literal)


lemma literal_a: "literal ''a'' = Fixed ''a'' (Lit CHR ''a'')"
  by (simp add: literal_def)

text \<open>
  Claim C1, as stated, fails. \<open>Fixed('a').match('ab')\<close> returns the string \<open>a\<close>, not a pair of
  the string and the end position 1; it returns the same on \<open>a\<close> and on \<open>ab\<close>, so that
  nothing in the result can be compared with the length of the input.
\<close>

theorem match_result_counterexample:
  "Fixed_init ''a'' None = Inr (literal ''a'')
   \<and> match_sp (literal ''a'') ''ab'' 0 = Inr (VStr ''a'', 1)
   \<and> match (literal ''a'') ''ab'' 0 = Inr (VStr ''a'')
   \<and> match (literal ''a'') ''ab'' 0 \<noteq> Inr (VTuple [VStr ''a'', VInt 1])
   \<and> match (literal ''a'') ''a'' 0 = match (literal ''a'') ''ab'' 0"
  by (simp add: literal_a Fixed_init_def re_compile_def match_def fixed_match_def re_match_def)

text \<open>
  Claim C1, amended. \<open>T.match(s, p)\<close> returns what \<open>T._match\<close> returns on a fresh cursor, the
  value alone: the matched value on success and \<open>None\<close> on failure; the end position stays
  in the cursor, which is dropped. The whole input need not be consumed: the \<open>Fixed\<close> of a
  plain text \<open>d\<close> matches \<open>d\<close> followed by anything and returns \<open>d\<close>, and a \<open>Fixed\<close> whose pattern
  does not match returns \<open>None\<close>.
\<close>

theorem match_returns_value_only:
  "match t s pos = (case match_sp t s pos of Inl e \<Rightarrow> Inl e | Inr (v, pos') \<Rightarrow> Inr v)
   \<and> (list_all plain_char d \<longrightarrow>
        Fixed_init d None = Inr (literal d)
        \<and> match_sp (literal d) (d @ rest) 0 = Inr (VStr d, int (length d))
        \<and> match (literal d) (d @ rest) 0 = Inr (VStr d))
   \<and> (re_match r s pos = None \<longrightarrow>
        match_sp (Fixed d' r) s pos = Inr (VNone, pos) \<and> match (Fixed d' r) s pos = Inr VNone)"
proof (intro conjI impI)
  show "match t s pos = (case match_sp t s pos of Inl e \<Rightarrow> Inl e | Inr (v, pos') \<Rightarrow> Inr v)"
    by (simp add: match_def)
next
  assume "list_all plain_char d"
  then show "Fixed_init d None = Inr (literal d)"
    by (rule literal_init)
next
  from literal_match[of d "[]" rest]
  show m: "match_sp (literal d) (d @ rest) 0 = Inr (VStr d, int (length d))"
    by simp
  then show "match (literal d) (d @ rest) 0 = Inr (VStr d)"
    by (simp add: match_def)
next
  assume "re_match r s pos = None"
  then show m: "match_sp (Fixed d' r) s pos = Inr (VNone, pos)"
    by (simp add: fixed_match_def)
  then show "match (Fixed d' r) s pos = Inr VNone"
    by (simp add: match_def)
qed

text \<open>\<open>Fixed('No')\<close> on \<open>Nope\<close> and on \<open>Yes\<close>.\<close>

theorem match_returns_value_only_witness:
  "Fixed_init ''No'' None = Inr (literal ''No'')
   \<and> match_sp (literal ''No'') ''Nope'' 0 = Inr (VStr ''No'', 2)
   \<and> match (literal ''No'') ''Nope'' 0 = Inr (VStr ''No'')
   \<and> match (literal ''No'') ''Yes'' 0 = Inr VNone"
proof -
  have p: "list_all plain_char ''No''"
    by (simp add: plain_char_def)
  have n: "re_match (seq (map Lit ''No'')) ''Yes'' 0 = None"
    by (simp add: re_match_def)
  from match_returns_value_only[where d = "''No''" and rest = "''pe''" and r = "seq (map Lit ''No'')"
      and s = "''Yes''" and pos = 0 and d' = "''No''"] p n
  show ?thesis
    by (simp add: literal_def)
qed

section \<open>Filling and matching back\<close>


































lemma ab_record_init:
  "Suffix_init (Tm NUM) (Str '' '') = Inr (Affix NOTHING (Tm NUM) (Some (Fixed '' '' (Lit CHR '' ''))))
   \<and> Record_init [(''a'', Tm (Affix NOTHING (Tm NUM) (Some (Fixed '' '' (Lit CHR '' ''))))),
        (''b'', Tm NUM)] = Inr ab_record"
  by (simp add: Suffix_init_def Affix_init_def Fixed_init_def re_compile_def Record_init_def
      ab_record_def)



section \<open>The guards of the model\<close>

text \<open>
  What \<open>re_compile\<close> returns satisfies \<open>stars_ok\<close>, and the body of such a repetition only
  matches with a positive number of characters, within the text: the guard of the \<open>Star\<close>
  equation of \<open>rx\<close> drops nothing.
\<close>

lemma rx_consumes: "(n, c) \<in> set (rx r s) \<Longrightarrow> n \<le> length s"
proof (induction r s arbitrary: n c rule: rx.induct)
  case (1 x s)
  then show ?case by (auto split: list.splits if_splits)
next
  case (2 s)
  then show ?case by (auto split: list.splits if_splits)
next
  case (3 neg rs s)
  then show ?case by (auto split: list.splits if_splits)
next
  case (4 s)
  then show ?case by simp
next
  case (5 a b s)
  from 5(3) obtain n1 c1 n2 c2 where a: "(n1, c1) \<in> set (rx a s)"
    and b: "(n2, c2) \<in> set (rx b (drop n1 s))" and n: "n = n1 + n2"
    by auto
  from 5(1)[OF a] have "n1 \<le> length s" .
  moreover from 5(2)[OF a refl b] have "n2 \<le> length s - n1" by simp
  ultimately show ?case using n by linarith
next
  case (6 a b s)
  from 6(3) have "(n, c) \<in> set (rx a s) \<or> (n, c) \<in> set (rx b s)" by simp
  with 6(1,2) show ?case by blast
next
  case (7 a s)
  note m = 7(3)[unfolded rx.simps(7)[of a s]]
  show ?case
  proof (cases "n = 0")
    case True
    then show ?thesis by simp
  next
    case False
    with m obtain n1 c1 n2 c2 where a: "(n1, c1) \<in> set (rx a s)"
      and g: "0 < n1 \<and> n1 \<le> length s"
      and b: "(n2, c2) \<in> set (rx (Star a) (drop n1 s))" and n: "n = n1 + n2"
      by (auto simp del: rx.simps split: if_splits)
    from 7(2)[OF a refl g b] have "n2 \<le> length s - n1" by simp
    with g n show ?thesis by linarith
  qed
next
  case (8 i a s)
  from 8(2) have "(n, tl c) \<in> set (rx a s) \<or> (\<exists>c'. (n, c') \<in> set (rx a s))" by auto
  with 8(1) show ?case by blast
qed

lemma rx_progress: "\<not> nullable r \<Longrightarrow> (n, c) \<in> set (rx r s) \<Longrightarrow> 0 < n"
proof (induction r arbitrary: n c s)
  case (Lit x)
  then show ?case by (auto split: list.splits if_splits)
next
  case Dot
  then show ?case by (auto split: list.splits if_splits)
next
  case (CharSet neg rs)
  then show ?case by (auto split: list.splits if_splits)
next
  case Epsilon
  then show ?case by simp
next
  case (Cat a b)
  from Cat.prems(2) obtain n1 c1 n2 c2 where a: "(n1, c1) \<in> set (rx a s)"
    and b: "(n2, c2) \<in> set (rx b (drop n1 s))" and n: "n = n1 + n2"
    by auto
  from Cat.prems(1) have "\<not> nullable a \<or> \<not> nullable b" by simp
  with Cat.IH(1)[OF _ a] Cat.IH(2)[OF _ b] n show ?case by auto
next
  case (Alt a b)
  from Alt.prems(2) have "(n, c) \<in> set (rx a s) \<or> (n, c) \<in> set (rx b s)" by simp
  with Alt.IH Alt.prems(1) show ?case by auto
next
  case (Star a)
  from Star.prems(1) show ?case by simp
next
  case (Group i a)
  from Group.prems(2) have "\<exists>c'. (n, c') \<in> set (rx a s)" by auto
  with Group.IH Group.prems(1) show ?case by auto
qed

lemma star_guard_redundant:
  assumes "\<not> nullable a" and "(n, c) \<in> set (rx a s)"
  shows "0 < n \<and> n \<le> length s"
  using assms rx_consumes rx_progress by blast

lemma seq_ok: "list_all stars_ok rs \<Longrightarrow> stars_ok (seq rs)"
  by (induction rs rule: seq.induct) auto

lemma alt_ok: "list_all stars_ok rs \<Longrightarrow> stars_ok (alt rs)"
  by (induction rs rule: alt.induct) auto

lemma close_frame_ok: "frame_ok f \<Longrightarrow> stars_ok (close_frame f)"
  by (cases f) (auto intro!: alt_ok seq_ok simp: list_all_iff)

lemma push_item_ok: "stars_ok r \<Longrightarrow> list_all frame_ok fs \<Longrightarrow> list_all frame_ok (push_item r fs)"
  by (cases "(r, fs)" rule: push_item.cases) auto

lemma quantify_ok: "list_all frame_ok fs \<Longrightarrow> quantify q fs = Inr fs' \<Longrightarrow> list_all frame_ok fs'"
  by (cases "(q, fs)" rule: quantify.cases) (auto split: if_splits)

lemma class_this_ok:
  "list_all frame_ok fs \<Longrightarrow> class_this fs n neg items c = Inr st' \<Longrightarrow> state_ok st'"
  by (auto split: if_splits intro!: push_item_ok)

lemma class_range_ok:
  "list_all frame_ok fs \<Longrightarrow> class_range fs n neg items lo hi = Inr st' \<Longrightarrow> state_ok st'"
  by (auto split: if_splits)

lemma step_normal_ok:
  assumes ok: "list_all frame_ok fs" and st: "step (PState fs n Normal) c = Inr st'"
  shows "state_ok st'"
proof (cases "c = CHR 0x5C \<or> c = CHR ''[''")
  case True
  with st ok show ?thesis by auto
next
  case n1: False
  show ?thesis
  proof (cases "c = CHR ''(''")
    case True
    with st ok n1 show ?thesis by auto
  next
    case n2: False
    show ?thesis
    proof (cases "c = CHR '')''")
      case True
      with st n1 n2 obtain f p rest where fs: "fs = f # p # rest"
        and s: "st' = PState (push_item (Group (case f of Frame g alts items q \<Rightarrow> g) (close_frame f)) (p # rest)) n Normal"
        by (auto split: list.splits frame.splits)
      from ok fs have "stars_ok (close_frame f)" and "list_all frame_ok (p # rest)"
        by (simp_all add: close_frame_ok)
      then have "list_all frame_ok (push_item (Group (case f of Frame g alts items q \<Rightarrow> g) (close_frame f)) (p # rest))"
        by (intro push_item_ok) simp_all
      with s show ?thesis by simp
    next
      case n3: False
      show ?thesis
      proof (cases "c = CHR ''|''")
        case True
        with st n1 n2 n3 obtain g alts items q rest where fs: "fs = Frame g alts items q # rest"
          and s: "st' = PState (Frame g (seq (rev items) # alts) [] False # rest) n Normal"
          by (auto split: list.splits frame.splits)
        from ok fs have "stars_ok (seq (rev items))"
          by (intro seq_ok) simp
        with ok fs s show ?thesis by simp
      next
        case n4: False
        show ?thesis
        proof (cases "c = CHR ''*'' \<or> c = CHR ''+'' \<or> c = CHR ''?''")
          case True
          with st n1 n2 n3 n4 obtain fs' where q: "quantify c fs = Inr fs'" and s: "st' = PState fs' n Normal"
            by (auto split: sum.splits)
          from quantify_ok[OF ok q] s show ?thesis by simp
        next
          case n5: False
          show ?thesis
          proof (cases "c = CHR ''.''")
            case True
            with st n1 n2 n3 n4 n5 have "st' = PState (push_item Dot fs) n Normal" by auto
            with ok show ?thesis by (simp add: push_item_ok)
          next
            case n6: False
            with st n1 n2 n3 n4 n5 have "st' = PState (push_item (Lit c) fs) n Normal"
              by (auto split: if_splits)
            with ok show ?thesis by (simp add: push_item_ok)
          qed
        qed
      qed
    qed
  qed
qed

lemma step_ok: "state_ok st \<Longrightarrow> step st c = Inr st' \<Longrightarrow> state_ok st'"
proof (induction st c rule: step.induct)
  case (1 fs n c)
  then show ?case
    by (auto dest: step_normal_ok simp del: step.simps)
next
  case (2 fs n c)
  then show ?case by (auto split: sum.splits intro!: push_item_ok)
next
  case (3 fs n c)
  then show ?case by (auto split: if_splits dest: class_this_ok simp del: class_this.simps)
next
  case (4 fs n neg items c)
  then show ?case by (auto dest: class_this_ok simp del: class_this.simps)
next
  case (5 fs n neg items lo c)
  then show ?case by (auto split: if_splits dest: class_this_ok simp del: class_this.simps)
next
  case (6 fs n neg items lo c)
  then show ?case
    by (auto split: if_splits intro!: push_item_ok dest: class_range_ok simp del: class_range.simps)
next
  case (7 fs n neg items pend c)
  then show ?case
    by (auto split: sum.splits cpend.splits dest: class_range_ok simp del: class_range.simps)
qed

lemma parse_ok: "state_ok st \<Longrightarrow> parse st p = Inr r \<Longrightarrow> stars_ok r"
proof (induction p arbitrary: st)
  case Nil
  then show ?case
    by (cases st rule: finish.cases) (auto intro: close_frame_ok simp del: close_frame.simps)
next
  case (Cons c p)
  then show ?case
    by (auto split: sum.splits dest: step_ok simp del: step.simps)
qed

lemma re_compile_stars_ok: "re_compile p = Inr r \<Longrightarrow> stars_ok r"
proof -
  assume "re_compile p = Inr r"
  then have "parse (PState [Frame 0 [] [] False] 0 Normal) p = Inr r"
    by (simp add: re_compile_def)
  moreover have "state_ok (PState [Frame 0 [] [] False] 0 Normal)"
    by simp
  ultimately show ?thesis
    by (rule parse_ok[rotated])
qed


text \<open>
  When item and delimiter have both returned, the guard of \<open>repeat_loop\<close> fails only if the
  cursor is back where the iteration began; \<open>Repeat(NOTHING, NOTHING)\<close> is such a loop.
\<close>

lemma repeat_progress:
  assumes "match_sp item s pos = Inr (m, pos1)" and "match_sp delimiter s pos1 = Inr (dm, pos2)"
  shows "(pos < pos2 \<and> pos2 \<le> int (length s)) \<or> pos2 = pos"
proof -
  from match_bounds(1)[of item s pos] assms(1) have "within s pos pos1" by blast
  moreover from match_bounds(1)[of delimiter s pos1] assms(2) have "within s pos1 pos2" by blast
  ultimately show ?thesis
    by (auto simp: within_def)
qed

lemma repeat_of_nothing_diverges:
  "match_sp (Repeat (Tm NOTHING) NOTHING tr) s pos = Inl Diverges"
proof -
  have "match_sp NOTHING s pos = Inr (VStr [], pos)"
    by (simp add: NOTHING_def fixed_match_def re_match_def)
  then have "repeat_loop (Tm NOTHING) NOTHING s pos [] pos VNone = Inl Diverges"
    by (subst repeat_loop.simps) simp
  then show ?thesis by simp
qed

end
